theory Spec2Isabelle
  imports Main
begin

section \<open>Static slot-to-master table\<close>

text \<open>
  \<^verbatim>\<open>verify_hash_tags.get_master_for_slot\<close>: an if/elif/else chain over the slot, returning
  a pair (label, IP address). Slots are Python integers, hence \<^typ>\<open>int\<close>; the comparisons
  cannot raise on an integer, so the function is total and has no error branch.
\<close>

definition get_master_for_slot :: "int \<Rightarrow> string \<times> string" where
  "get_master_for_slot slot =
     (if slot \<le> 5460 then (''Master 1 (redis-node-1)'', ''172.28.0.2'')
      else if slot \<le> 10922 then (''Master 2 (redis-node-2)'', ''172.28.0.3'')
      else (''Master 3 (redis-node-3)'', ''172.28.0.4''))"

text \<open>
  The same chain written inline in \<^verbatim>\<open>cluster_distribution_demo.demo_distribution\<close>
  (lines 81-86) and in \<^verbatim>\<open>category_products_demo.main\<close>: only the label is computed.
\<close>

definition demo_distribution_master :: "int \<Rightarrow> string" where
  "demo_distribution_master slot =
     (if slot \<le> 5460 then ''Master 1 (redis-node-1)''
      else if slot \<le> 10922 then ''Master 2 (redis-node-2)''
      else ''Master 3 (redis-node-3)'')"

text \<open>
  The slots of the 16384-slot space that the table gives to a label, and their number.
\<close>

definition slots_of_master :: "string \<Rightarrow> int set" where
  "slots_of_master label = {s \<in> {0..16383}. fst (get_master_for_slot s) = label}"

definition partition_size :: "string \<Rightarrow> nat" where
  "partition_size label = card (slots_of_master label)"


section \<open>Key slots and hash tags\<close>

text \<open>
  Modelled from the spec: the key-to-slot computation. No script computes a slot itself;
  every one calls \<^verbatim>\<open>rc.cluster_keyslot(key)\<close> of the cluster client, which is not part of
  the repository. The spec gives the slot as an integer in [0,16383] computed
  deterministically from the key by an external hashing function, and the hash tag as a
  substring delimited by braces whose contents alone determine the slot; the text printed
  by \<^verbatim>\<open>demo_distribution\<close> gives the formula \<^verbatim>\<open>CRC16(key) % 16384\<close>. The checksum is
  a parameter \<open>crc16\<close>. Where a key holds several brace groups the spec does not say
  which one counts; the model takes the store's rule: the text between the first
  opening brace and the first closing brace after it, when that text is not empty.
\<close>

definition hash_tag :: "string \<Rightarrow> string option" where
  "hash_tag key =
     (case dropWhile (\<lambda>c. c \<noteq> CHR ''{'') key of
        [] \<Rightarrow> None
      | _ # rest \<Rightarrow>
          (if CHR ''}'' \<in> set rest \<and> takeWhile (\<lambda>c. c \<noteq> CHR ''}'') rest \<noteq> []
           then Some (takeWhile (\<lambda>c. c \<noteq> CHR ''}'') rest)
           else None))"

definition hashed_part :: "string \<Rightarrow> string" where
  "hashed_part key = (case hash_tag key of Some t \<Rightarrow> t | None \<Rightarrow> key)"

definition cluster_keyslot :: "(string \<Rightarrow> nat) \<Rightarrow> string \<Rightarrow> int" where
  "cluster_keyslot crc16 key = int (crc16 (hashed_part key) mod 16384)"

text \<open>
  The keys that \<^verbatim>\<open>verify_hash_tags.main\<close> (lines 59-60) and
  \<^verbatim>\<open>category_products_demo.main\<close> (lines 96, 116, 133-134, 143) build with f-strings:
  \<^verbatim>\<open>f"{{category:{category}}}"\<close> is the text \<^verbatim>\<open>{category:\<close>, the category, \<^verbatim>\<open>}\<close>.
\<close>

definition category_key :: "string \<Rightarrow> string" where
  "category_key category = ''{category:'' @ category @ ''}''"

definition products_key :: "string \<Rightarrow> string" where
  "products_key category = ''{category:'' @ category @ ''}:products''"

definition product_key :: "string \<Rightarrow> string \<Rightarrow> string" where
  "product_key category product_id = ''{category:'' @ category @ ''}:product:'' @ product_id"

text \<open>
  \<^verbatim>\<open>verify_hash_tags.main\<close>, lines 63-64 and 81: the two slots and the flag \<^verbatim>\<open>same_slot\<close>.
\<close>

definition same_slot :: "(string \<Rightarrow> nat) \<Rightarrow> string \<Rightarrow> bool" where
  "same_slot crc16 category =
     (let category_slot = cluster_keyslot crc16 (category_key category);
          products_slot = cluster_keyslot crc16 (products_key category)
      in category_slot = products_slot)"

text \<open>
  \<^verbatim>\<open>category_products_demo.main\<close>, lines 137-152: the slots of the category key, of the
  product-list key and of every product key are collected in a list, and the flag
  \<^verbatim>\<open>all_same\<close> is \<^verbatim>\<open>len(set(all_slots)) == 1\<close>.
\<close>

definition all_slots :: "(string \<Rightarrow> nat) \<Rightarrow> string \<Rightarrow> string list \<Rightarrow> int list" where
  "all_slots crc16 category product_ids =
     [cluster_keyslot crc16 (category_key category), cluster_keyslot crc16 (products_key category)]
     @ map (\<lambda>pid. cluster_keyslot crc16 (product_key category pid)) product_ids"

definition all_same :: "(string \<Rightarrow> nat) \<Rightarrow> string \<Rightarrow> string list \<Rightarrow> bool" where
  "all_same crc16 category product_ids =
     (length (remdups (all_slots crc16 category product_ids)) = 1)"

text \<open>
  A small concrete checksum for evaluating examples (the sum of the character codes); the
  theorems below hold for every checksum.
\<close>

definition sum_codes :: "string \<Rightarrow> nat" where
  "sum_codes s = sum_list (map of_char s)"


section \<open>Topology lookup\<close>

text \<open>
  \<^verbatim>\<open>cluster_distribution_demo.get_node_for_key\<close>. The topology is the dictionary that
  \<^verbatim>\<open>rc.cluster_nodes()\<close> of the imported client gives, from a node's name to its
  description, itself a dictionary. The script gives these values no type: it reads a
  description with \<^verbatim>\<open>get\<close>, tests \<^verbatim>\<open>slots\<close> for truth, indexes it, unpacks the first
  item into two and compares both with the slot. So a value is any Python value: None, a
  truth value, an integer, a string or a list (a tuple behaves as a list here), and each
  of these steps raises where Python raises: indexing or unpacking a value that is no
  sequence and comparing a string, None or a list with an integer give TypeError,
  unpacking a sequence that has not exactly two items gives ValueError (here
  \<open>UnpackError\<close>). A dictionary is the list of its items in iteration order.
\<close>

datatype pyval = PNone | PBool bool | PInt int | PStr string | PList "pyval list"

datatype lookup_error = TypeError | UnpackError | IndexError

type_synonym pydict = "(string \<times> pyval) list"

text \<open>\<^verbatim>\<open>d.get(k, default)\<close>.\<close>

definition dict_get :: "pydict \<Rightarrow> string \<Rightarrow> pyval \<Rightarrow> pyval" where
  "dict_get d k dflt = (case map_of d k of None \<Rightarrow> dflt | Some v \<Rightarrow> v)"

text \<open>The truth value of \<^verbatim>\<open>if slots:\<close>.\<close>

fun truthy :: "pyval \<Rightarrow> bool" where
  "truthy PNone = False"
| "truthy (PBool b) = b"
| "truthy (PInt n) = (n \<noteq> 0)"
| "truthy (PStr s) = (s \<noteq> [])"
| "truthy (PList xs) = (xs \<noteq> [])"

text \<open>\<^verbatim>\<open>slots[0]\<close>.\<close>

fun first_item :: "pyval \<Rightarrow> lookup_error + pyval" where
  "first_item (PList (x # _)) = Inr x"
| "first_item (PList []) = Inl IndexError"
| "first_item (PStr (c # _)) = Inr (PStr [c])"
| "first_item (PStr []) = Inl IndexError"
| "first_item _ = Inl TypeError"

text \<open>\<^verbatim>\<open>start, end = ...\<close>: a string unpacks into its characters.\<close>

fun unpack_pair :: "pyval \<Rightarrow> lookup_error + pyval \<times> pyval" where
  "unpack_pair (PList [a, b]) = Inr (a, b)"
| "unpack_pair (PList _) = Inl UnpackError"
| "unpack_pair (PStr [c, d]) = Inr (PStr [c], PStr [d])"
| "unpack_pair (PStr _) = Inl UnpackError"
| "unpack_pair _ = Inl TypeError"

text \<open>
  \<^verbatim>\<open>start <= slot <= end\<close> with an integer slot is \<^verbatim>\<open>start <= slot and slot <= end\<close>: the
  second comparison runs only when the first holds. An operand compares with an integer
  when it is an integer or a truth value (1 or 0).
\<close>

fun as_int :: "pyval \<Rightarrow> lookup_error + int" where
  "as_int (PInt n) = Inr n"
| "as_int (PBool b) = Inr (if b then 1 else 0)"
| "as_int _ = Inl TypeError"

definition chained_le :: "pyval \<Rightarrow> int \<Rightarrow> pyval \<Rightarrow> lookup_error + bool" where
  "chained_le start slot end' =
     (case as_int start of
        Inl e \<Rightarrow> Inl e
      | Inr a \<Rightarrow>
          if a \<le> slot then (case as_int end' of Inl e \<Rightarrow> Inl e | Inr b \<Rightarrow> Inr (slot \<le> b))
          else Inr False)"

text \<open>The loop over \<^verbatim>\<open>nodes.items()\<close> and the return after it.\<close>

fun find_node :: "(string \<times> pydict) list \<Rightarrow> int \<Rightarrow> lookup_error + pyval \<times> pyval \<times> int" where
  "find_node [] slot = Inr (PNone, PNone, slot)"
| "find_node ((node_id, node_info) # rest) slot =
     (if dict_get node_info ''master'' PNone = PNone then
        (let slots = dict_get node_info ''slots'' (PList []) in
         if truthy slots then
           (case first_item slots of
              Inl e \<Rightarrow> Inl e
            | Inr first \<Rightarrow>
                (case unpack_pair first of
                   Inl e \<Rightarrow> Inl e
                 | Inr (start, end') \<Rightarrow>
                     (case chained_le start slot end' of
                        Inl e \<Rightarrow> Inl e
                      | Inr True \<Rightarrow>
                          Inr (dict_get node_info ''host'' PNone, dict_get node_info ''port'' PNone, slot)
                      | Inr False \<Rightarrow> find_node rest slot)))
         else find_node rest slot)
      else find_node rest slot)"

text \<open>The slot is the client's \<^verbatim>\<open>cluster_keyslot(key)\<close>, an integer, passed as \<open>keyslot\<close>.\<close>

definition get_node_for_key ::
  "(string \<Rightarrow> int) \<Rightarrow> (string \<times> pydict) list \<Rightarrow> string \<Rightarrow> lookup_error + pyval \<times> pyval \<times> int" where
  "get_node_for_key keyslot nodes key = (let slot = keyslot key in find_node nodes slot)"

text \<open>
  Two shapes of a description. The script is written for ranges that are pairs of
  integers (\<open>int_ranges\<close>). The client gives each range as a list of two strings, as it
  reads them from the text of \<^verbatim>\<open>CLUSTER NODES\<close>, under the keys \<^verbatim>\<open>node_id\<close>, \<^verbatim>\<open>flags\<close>,
  \<^verbatim>\<open>master_id\<close>, \<^verbatim>\<open>slots\<close>, \<^verbatim>\<open>migrations\<close>, \<^verbatim>\<open>connected\<close> and others, none of them
  \<^verbatim>\<open>master\<close>, \<^verbatim>\<open>host\<close> or \<^verbatim>\<open>port\<close> (\<open>client_shaped\<close>).
\<close>

definition ranges_of :: "pydict \<Rightarrow> pyval" where
  "ranges_of node_info = dict_get node_info ''slots'' (PList [])"

fun int_pair :: "pyval \<Rightarrow> bool" where
  "int_pair (PList [PInt a, PInt b]) = True"
| "int_pair _ = False"

fun str_pair :: "pyval \<Rightarrow> bool" where
  "str_pair (PList [PStr a, PStr b]) = True"
| "str_pair _ = False"

definition int_ranges :: "pydict \<Rightarrow> bool" where
  "int_ranges node_info = (case ranges_of node_info of PList rs \<Rightarrow> list_all int_pair rs | _ \<Rightarrow> False)"

definition client_shaped :: "pydict \<Rightarrow> bool" where
  "client_shaped node_info =
     (map_of node_info ''master'' = None \<and> map_of node_info ''host'' = None
      \<and> map_of node_info ''port'' = None
      \<and> (case ranges_of node_info of PList rs \<Rightarrow> list_all str_pair rs | _ \<Rightarrow> False))"

text \<open>Whether a range of integers holds the slot; whether the first listed range of a
  master does; whether any listed range of a master does.\<close>

fun range_holds :: "pyval \<Rightarrow> int \<Rightarrow> bool" where
  "range_holds (PList [PInt a, PInt b]) slot = (a \<le> slot \<and> slot \<le> b)"
| "range_holds _ slot = False"

fun head_holds :: "pyval \<Rightarrow> int \<Rightarrow> bool" where
  "head_holds (PList (r # _)) slot = range_holds r slot"
| "head_holds _ slot = False"

fun any_holds :: "pyval \<Rightarrow> int \<Rightarrow> bool" where
  "any_holds (PList rs) slot = list_ex (\<lambda>r. range_holds r slot) rs"
| "any_holds _ slot = False"

definition first_range_holds :: "pydict \<Rightarrow> int \<Rightarrow> bool" where
  "first_range_holds node_info slot =
     (dict_get node_info ''master'' PNone = PNone \<and> head_holds (ranges_of node_info) slot)"

definition owns_slot :: "pydict \<Rightarrow> int \<Rightarrow> bool" where
  "owns_slot node_info slot =
     (dict_get node_info ''master'' PNone = PNone \<and> any_holds (ranges_of node_info) slot)"

text \<open>A topology with integer ranges: one master that lists two ranges, and its replica.\<close>

definition split_master :: pydict where
  "split_master = [(''slots'', PList [PList [PInt 0, PInt 100], PList [PInt 5000, PInt 6000]]),
                   (''host'', PStr ''172.28.0.2''), (''port'', PInt 6379)]"

definition a_replica :: pydict where
  "a_replica = [(''master'', PStr ''id-1''), (''slots'', PList []),
                (''host'', PStr ''172.28.0.5''), (''port'', PInt 6379)]"

definition two_nodes :: "(string \<times> pydict) list" where
  "two_nodes = [(''id-4'', a_replica), (''id-1'', split_master)]"

text \<open>The same topology as the client gives it.\<close>

definition client_master :: pydict where
  "client_master =
     [(''node_id'', PStr ''id-1''), (''flags'', PStr ''myself,master''), (''master_id'', PStr ''-''),
      (''slots'', PList [PList [PStr ''0'', PStr ''100''], PList [PStr ''5000'', PStr ''6000'']]),
      (''migrations'', PList []), (''connected'', PBool True)]"

definition client_replica :: pydict where
  "client_replica =
     [(''node_id'', PStr ''id-4''), (''flags'', PStr ''slave''), (''master_id'', PStr ''id-1''),
      (''slots'', PList []), (''migrations'', PList []), (''connected'', PBool True)]"

definition client_nodes :: "(string \<times> pydict) list" where
  "client_nodes = [(''172.28.0.5:6379'', client_replica), (''172.28.0.2:6379'', client_master)]"


section \<open>Connecting at startup\<close>

text \<open>
  \<^verbatim>\<open>verify_hash_tags.main\<close>, \<^verbatim>\<open>clear_redis.clear_all_keys\<close> and
  \<^verbatim>\<open>category_products_demo.main\<close> start alike: a banner, then the constructor of the
  client inside \<^verbatim>\<open>try\<close>, with \<^verbatim>\<open>except Exception as e\<close> printing the failure and
  returning. A run is the list of its events, console lines and cluster operations, in
  order. The outcome of the constructor is the parameter \<open>connect\<close>: \<open>Inl e\<close> when it
  raises, \<open>e\<close> being the text of the exception, \<open>Inr rc\<close> when it gives the client.
  Everything a script does after the connection goes through the client; it is the
  parameter \<open>body\<close>, a function of the client. Console text is kept as UTF-8 bytes.
\<close>

datatype 'op event = Print string | Cluster 'op

definition banner :: "nat \<Rightarrow> string" where
  "banner n = replicate n CHR ''=''"

definition glyph_magnifier :: string where
  "glyph_magnifier = [CHR 0xF0, CHR 0x9F, CHR 0x94, CHR 0x8D]"

definition glyph_antenna :: string where
  "glyph_antenna = [CHR 0xF0, CHR 0x9F, CHR 0x93, CHR 0xA1]"

definition glyph_bin :: string where
  "glyph_bin = [CHR 0xF0, CHR 0x9F, CHR 0x97, CHR 0x91, CHR 0xEF, CHR 0xB8, CHR 0x8F]"

definition glyph_bags :: string where
  "glyph_bags = [CHR 0xF0, CHR 0x9F, CHR 0x9B, CHR 0x8D, CHR 0xEF, CHR 0xB8, CHR 0x8F]"

definition glyph_check :: string where
  "glyph_check = [CHR 0xE2, CHR 0x9C, CHR 0x85]"

definition glyph_cross :: string where
  "glyph_cross = [CHR 0xE2, CHR 0x9D, CHR 0x8C]"

definition connecting_line :: string where
  "connecting_line = CHR 0x0A # glyph_antenna @ '' Connecting to Redis Cluster...''"

definition connected_line :: string where
  "connected_line = glyph_check @ '' Connected successfully!''"

definition failed_line :: "string \<Rightarrow> string" where
  "failed_line e = glyph_cross @ '' Connection failed: '' @ e"

definition try_connect :: "string + 'rc \<Rightarrow> ('rc \<Rightarrow> 'op event list) \<Rightarrow> 'op event list" where
  "try_connect connect body =
     (case connect of
        Inl e \<Rightarrow> [Print (failed_line e)]
      | Inr rc \<Rightarrow> Print connected_line # body rc)"

definition verify_hash_tags_main :: "string + 'rc \<Rightarrow> ('rc \<Rightarrow> 'op event list) \<Rightarrow> 'op event list" where
  "verify_hash_tags_main connect body =
     [Print (banner 80),
      Print (glyph_magnifier @ '' VERIFYING HASH TAGS - Where Each Category is Stored''),
      Print (banner 80),
      Print connecting_line]
     @ try_connect connect body"

definition clear_all_keys :: "string + 'rc \<Rightarrow> ('rc \<Rightarrow> 'op event list) \<Rightarrow> 'op event list" where
  "clear_all_keys connect body =
     [Print (banner 60),
      Print (glyph_bin @ ''  Clearing All Keys from Redis Cluster''),
      Print (banner 60),
      Print connecting_line]
     @ try_connect connect body"

definition category_products_demo_main ::
  "string + 'rc \<Rightarrow> ('rc \<Rightarrow> 'op event list) \<Rightarrow> 'op event list" where
  "category_products_demo_main connect body =
     [Print (banner 70),
      Print (glyph_bags @ ''  CATEGORY & PRODUCTS DEMO - Using Hash Tags {{}}''),
      Print (banner 70),
      Print connecting_line]
     @ try_connect connect body"

text \<open>The cluster operations of a run.\<close>

fun cluster_ops :: "'op event list \<Rightarrow> 'op list" where
  "cluster_ops [] = []"
| "cluster_ops (Print _ # evs) = cluster_ops evs"
| "cluster_ops (Cluster op # evs) = op # cluster_ops evs"



section \<open>The key-value store\<close>

text \<open>
  Modelled from the spec: the primitives of the external store that \<^verbatim>\<open>EcommerceRedis\<close>
  and the demo scripts call through the client (spec section 6: hash-field
  get/set/increment on a grouped record, list push/trim, conditional set with expiry,
  delete, expiry). The client library is not part of the repository. A store is one key
  space: a key holds a string, a hash (a grouped record, field to value) or a list, and
  may carry a time to live in seconds. A command on a key of the wrong kind, or an
  increment of a value that is not an integer, is refused by the store and raised by the
  client as an exception: the \<open>Inl\<close> results. Commands run one after the other on one
  client; no clock advances within a call, so a time to live is recorded and never fires.
\<close>

datatype error = WrongType | NotAnInteger | Overflow | DataError | ValueError

datatype rvalue = RString string | RHash "string \<Rightarrow> string option" | RList "string list"

record store =
  entries :: "string \<Rightarrow> rvalue option"
  expiry :: "string \<Rightarrow> int option"

text \<open>
  The conversions between text and integers are those of the store and of the Python
  runtime, taken as parameters: \<open>py_int\<close> is Python's \<^verbatim>\<open>int(s)\<close> (\<open>None\<close> when it raises
  ValueError), \<open>string2ll\<close> the store's reading of a value as a signed 64-bit integer
  (\<open>None\<close> when the value is not one), \<open>ll2string\<close> the store's rendering of an integer.
\<close>

record conv =
  py_int :: "string \<Rightarrow> int option"
  string2ll :: "string \<Rightarrow> int option"
  ll2string :: "int \<Rightarrow> string"

definition in_int64 :: "int \<Rightarrow> bool" where
  "in_int64 n = (- (2 ^ 63) \<le> n \<and> n \<le> 2 ^ 63 - 1)"


text \<open>\<^verbatim>\<open>DEL key\<close>: removes the key and its time to live, whatever it holds.\<close>

definition delete :: "store \<Rightarrow> string \<Rightarrow> store" where
  "delete s key = s\<lparr>entries := (entries s)(key := None), expiry := (expiry s)(key := None)\<rparr>"

text \<open>\<^verbatim>\<open>EXPIRE key seconds\<close>: nothing on an absent key; a time that is not positive
  deletes the key; otherwise the time to live is set.\<close>

definition expire :: "store \<Rightarrow> string \<Rightarrow> int \<Rightarrow> bool \<times> store" where
  "expire s key seconds =
     (case entries s key of
        None \<Rightarrow> (False, s)
      | Some _ \<Rightarrow>
          if seconds \<le> 0 then (True, delete s key)
          else (True, s\<lparr>expiry := (expiry s)(key \<mapsto> seconds)\<rparr>))"

text \<open>\<^verbatim>\<open>INCR key\<close>: an absent key counts as 0; the new value is stored as text and
  returned; the time to live is kept.\<close>

definition incr :: "conv \<Rightarrow> store \<Rightarrow> string \<Rightarrow> error + (int \<times> store)" where
  "incr cv s key =
     (case entries s key of
        None \<Rightarrow> Inr (1, s\<lparr>entries := (entries s)(key \<mapsto> RString (ll2string cv 1))\<rparr>)
      | Some (RString v) \<Rightarrow>
          (case string2ll cv v of
             None \<Rightarrow> Inl NotAnInteger
           | Some n \<Rightarrow>
               if in_int64 (n + 1)
               then Inr (n + 1, s\<lparr>entries := (entries s)(key \<mapsto> RString (ll2string cv (n + 1)))\<rparr>)
               else Inl Overflow)
      | Some _ \<Rightarrow> Inl WrongType)"


text \<open>\<^verbatim>\<open>HGETALL key\<close>: the whole record as a dictionary, empty for an absent key.\<close>

definition hgetall :: "store \<Rightarrow> string \<Rightarrow> error + (string \<Rightarrow> string option)" where
  "hgetall s key =
     (case entries s key of
        None \<Rightarrow> Inr Map.empty
      | Some (RHash h) \<Rightarrow> Inr h
      | Some _ \<Rightarrow> Inl WrongType)"

text \<open>\<^verbatim>\<open>hset(key, mapping=...)\<close>: the fields of the mapping are set on the record of the
  key, which is created when absent; fields of the record that the mapping does not name
  stay. The client refuses an empty mapping before anything is sent. The mapping is a
  Python dictionary, read as the list of its items in order.\<close>

definition set_fields ::
  "(string \<times> string) list \<Rightarrow> (string \<Rightarrow> string option) \<Rightarrow> (string \<Rightarrow> string option)" where
  "set_fields items h = fold (\<lambda>(f, v) m. m(f \<mapsto> v)) items h"

definition hset_mapping :: "store \<Rightarrow> string \<Rightarrow> (string \<times> string) list \<Rightarrow> error + store" where
  "hset_mapping s key items =
     (if items = [] then Inl DataError
      else
        (case entries s key of
           None \<Rightarrow> Inr (s\<lparr>entries := (entries s)(key \<mapsto> RHash (set_fields items Map.empty))\<rparr>)
         | Some (RHash h) \<Rightarrow> Inr (s\<lparr>entries := (entries s)(key \<mapsto> RHash (set_fields items h))\<rparr>)
         | Some _ \<Rightarrow> Inl WrongType))"

text \<open>\<^verbatim>\<open>hset(key, field, value)\<close>: one field.\<close>

definition hset :: "store \<Rightarrow> string \<Rightarrow> string \<Rightarrow> string \<Rightarrow> error + store" where
  "hset s key field v =
     (case entries s key of
        None \<Rightarrow> Inr (s\<lparr>entries := (entries s)(key \<mapsto> RHash [field \<mapsto> v])\<rparr>)
      | Some (RHash h) \<Rightarrow> Inr (s\<lparr>entries := (entries s)(key \<mapsto> RHash (h(field \<mapsto> v)))\<rparr>)
      | Some _ \<Rightarrow> Inl WrongType)"


text \<open>\<^verbatim>\<open>LPUSH key value\<close>: the value becomes the head of the list, created when absent.\<close>

definition lpush :: "store \<Rightarrow> string \<Rightarrow> string \<Rightarrow> error + store" where
  "lpush s key v =
     (case entries s key of
        None \<Rightarrow> Inr (s\<lparr>entries := (entries s)(key \<mapsto> RList [v])\<rparr>)
      | Some (RList xs) \<Rightarrow> Inr (s\<lparr>entries := (entries s)(key \<mapsto> RList (v # xs))\<rparr>)
      | Some _ \<Rightarrow> Inl WrongType)"

text \<open>\<^verbatim>\<open>LTRIM key start stop\<close>: keeps the elements at the indices start to stop, both
  included; a negative index counts from the end; a list left empty is removed.\<close>

definition ltrim :: "store \<Rightarrow> string \<Rightarrow> int \<Rightarrow> int \<Rightarrow> error + store" where
  "ltrim s key start stop =
     (case entries s key of
        None \<Rightarrow> Inr s
      | Some (RList xs) \<Rightarrow>
          (let llen = int (length xs);
               start1 = (if start < 0 then llen + start else start);
               stop1 = (if stop < 0 then llen + stop else stop);
               start2 = (if start1 < 0 then 0 else start1);
               kept = (if start2 > stop1 \<or> start2 \<ge> llen then []
                       else take (nat (min stop1 (llen - 1) - start2 + 1)) (drop (nat start2) xs))
           in if kept = [] then Inr (delete s key)
              else Inr (s\<lparr>entries := (entries s)(key \<mapsto> RList kept)\<rparr>))
      | Some _ \<Rightarrow> Inl WrongType)"

text \<open>The number of elements of the list at a key (\<^verbatim>\<open>LLEN\<close>), 0 when the key holds no list.\<close>

definition llen :: "store \<Rightarrow> string \<Rightarrow> nat" where
  "llen s key = (case entries s key of Some (RList xs) \<Rightarrow> length xs | _ \<Rightarrow> 0)"

text \<open>The elements of the list at a key, none when the key holds no list.\<close>

definition list_at :: "store \<Rightarrow> string \<Rightarrow> string list" where
  "list_at s key = (case entries s key of Some (RList xs) \<Rightarrow> xs | _ \<Rightarrow> [])"

text \<open>The record at a key, empty when the key holds no hash.\<close>

definition hash_at :: "store \<Rightarrow> string \<Rightarrow> (string \<Rightarrow> string option)" where
  "hash_at s key = (case entries s key of Some (RHash h) \<Rightarrow> h | _ \<Rightarrow> Map.empty)"



section \<open>The e-commerce facade\<close>

text \<open>
  The methods of \<^verbatim>\<open>real_world_example.EcommerceRedis\<close>. The object holds nothing but the
  client, so a method takes the store and gives back its result and the store after it.
  An exception leaving the method is an \<open>Inl\<close> result. Lines printed by a method are left
  out of the model.
\<close>

text \<open>Python's \<^verbatim>\<open>str\<close> of an integer: decimal digits, a minus sign when negative.\<close>

fun str_nat :: "nat \<Rightarrow> string" where
  "str_nat n = (if n < 10 then [char_of (48 + n)] else str_nat (n div 10) @ [char_of (48 + n mod 10)])"

declare str_nat.simps [simp del]

definition py_str :: "int \<Rightarrow> string" where
  "py_str i = (if i < 0 then CHR ''-'' # str_nat (nat (- i)) else str_nat (nat i))"

text \<open>
  \<^verbatim>\<open>add_product\<close> and \<^verbatim>\<open>get_product\<close>. The texts \<^verbatim>\<open>str(price)\<close>, \<^verbatim>\<open>str(stock)\<close> (the price
  is a float in the demo) and \<^verbatim>\<open>datetime.now().isoformat()\<close> come from the runtime and
  are passed in as they are written to the store.
\<close>

definition product_hash_key :: "string \<Rightarrow> string" where
  "product_hash_key product_id = ''product:'' @ product_id"

definition product_mapping ::
  "string \<Rightarrow> string \<Rightarrow> string \<Rightarrow> string \<Rightarrow> string \<Rightarrow> (string \<times> string) list" where
  "product_mapping name price stock category created_at =
     [(''name'', name), (''price'', price), (''stock'', stock), (''category'', category),
      (''views'', ''0''), (''created_at'', created_at)]"

definition add_product ::
  "store \<Rightarrow> string \<Rightarrow> string \<Rightarrow> string \<Rightarrow> string \<Rightarrow> string \<Rightarrow> string \<Rightarrow> error + store" where
  "add_product s product_id name price stock category created_at =
     hset_mapping s (product_hash_key product_id)
       (product_mapping name price stock category created_at)"

definition get_product :: "store \<Rightarrow> string \<Rightarrow> error + (string \<Rightarrow> string option)" where
  "get_product s product_id = hgetall s (product_hash_key product_id)"

text \<open>\<^verbatim>\<open>demo.main\<close>, lines 73-80: the record written and read back by the demo.\<close>

definition demo_mapping :: "(string \<times> string) list" where
  "demo_mapping = [(''name'', ''Redis Cluster Guide''), (''price'', ''29.99''),
                   (''category'', ''Books''), (''stock'', ''150'')]"

definition demo_hash_roundtrip :: "store \<Rightarrow> error + (string \<Rightarrow> string option)" where
  "demo_hash_roundtrip s =
     (case hset_mapping s ''product:1001'' demo_mapping of
        Inl e \<Rightarrow> Inl e
      | Inr s1 \<Rightarrow> hgetall s1 ''product:1001'')"

text \<open>\<^verbatim>\<open>add_to_cart\<close>: one field of the cart record of the user, then a week of expiry.\<close>

definition cart_key :: "string \<Rightarrow> string" where
  "cart_key user_id = ''cart:'' @ user_id"

definition add_to_cart :: "store \<Rightarrow> string \<Rightarrow> string \<Rightarrow> int \<Rightarrow> error + store" where
  "add_to_cart s user_id product_id quantity =
     (case hset s (cart_key user_id) product_id (py_str quantity) of
        Inl e \<Rightarrow> Inl e
      | Inr s1 \<Rightarrow> Inr (snd (expire s1 (cart_key user_id) (7 * 24 * 3600))))"

text \<open>\<^verbatim>\<open>check_rate_limit\<close>: the pair (allowed, message).\<close>

definition rate_limit_key :: "string \<Rightarrow> string" where
  "rate_limit_key ip_address = ''rate_limit:'' @ ip_address"

definition check_rate_limit ::
  "conv \<Rightarrow> store \<Rightarrow> string \<Rightarrow> int \<Rightarrow> int \<Rightarrow> (error + bool \<times> string) \<times> store" where
  "check_rate_limit cv s ip_address max_requests window =
     (let key = rate_limit_key ip_address in
      case incr cv s key of
        Inl e \<Rightarrow> (Inl e, s)
      | Inr (current, s1) \<Rightarrow>
          (let s2 = (if current = 1 then snd (expire s1 key window) else s1) in
           if current > max_requests
           then (Inr (False, ''Rate limit exceeded: '' @ py_str current @ ''/'' @ py_str max_requests), s2)
           else (Inr (True, ''OK: '' @ py_str current @ ''/'' @ py_str max_requests), s2)))"

text \<open>The counter of an address as the store reads it: 0 for an absent key.\<close>

definition counter_value :: "conv \<Rightarrow> store \<Rightarrow> string \<Rightarrow> int option" where
  "counter_value cv s key =
     (case entries s key of
        None \<Rightarrow> Some 0
      | Some (RString v) \<Rightarrow> string2ll cv v
      | Some _ \<Rightarrow> None)"

text \<open>\<^verbatim>\<open>track_product_view\<close>: push, then trim to the first 50.\<close>

definition views_key :: "string \<Rightarrow> string" where
  "views_key user_id = ''views:'' @ user_id"

definition track_product_view :: "store \<Rightarrow> string \<Rightarrow> string \<Rightarrow> error + store" where
  "track_product_view s user_id product_id =
     (case lpush s (views_key user_id) product_id of
        Inl e \<Rightarrow> Inl e
      | Inr s1 \<Rightarrow> ltrim s1 (views_key user_id) 0 49)"

text \<open>
  \<^verbatim>\<open>add_notification\<close>: the notification is the JSON text of a dictionary holding the type,
  the message, the time and a flag; the encoder with the clock is the parameter \<open>dumps\<close>.
\<close>

definition notifications_key :: "string \<Rightarrow> string" where
  "notifications_key user_id = ''notifications:'' @ user_id"

definition add_notification ::
  "(string \<Rightarrow> string \<Rightarrow> string) \<Rightarrow> store \<Rightarrow> string \<Rightarrow> string \<Rightarrow> string \<Rightarrow> error + store" where
  "add_notification dumps s user_id notification_type message =
     (let notification = dumps notification_type message in
      case lpush s (notifications_key user_id) notification of
        Inl e \<Rightarrow> Inl e
      | Inr s1 \<Rightarrow> ltrim s1 (notifications_key user_id) 0 99)"

text \<open>\<^verbatim>\<open>track_event\<close>: the event, encoded likewise, goes to one list for all users.\<close>

definition track_event ::
  "(string \<Rightarrow> string option \<Rightarrow> string option \<Rightarrow> string) \<Rightarrow> store \<Rightarrow> string \<Rightarrow> string option \<Rightarrow>
   string option \<Rightarrow> error + store" where
  "track_event dumps s event_type user_id product_id =
     (let event = dumps event_type user_id product_id in
      case lpush s ''analytics:events'' event of
        Inl e \<Rightarrow> Inl e
      | Inr s1 \<Rightarrow> ltrim s1 ''analytics:events'' 0 9999)"


text \<open>
  \<^verbatim>\<open>reserve_stock\<close>: the lock is taken with \<^verbatim>\<open>set(lock_key, "locked", nx=True, ex=5)\<close>;
  the body of \<^verbatim>\<open>try\<close> gives True, False or an exception, and \<^verbatim>\<open>finally\<close> deletes the
  lock key in each of the three cases before the outcome leaves the method.
\<close>

definition lock_key :: "string \<Rightarrow> string" where
  "lock_key product_id = ''lock:stock:'' @ product_id"





section \<open>Concrete conversions and stores for examples\<close>

text \<open>
  Strict decimal reading: an optional minus sign, then digits with no leading zero. On
  such texts the store and Python's \<^verbatim>\<open>int\<close> agree; the examples use only these.
\<close>

definition digit_val :: "char \<Rightarrow> nat option" where
  "digit_val c = (let k = (of_char c :: nat) in if 48 \<le> k \<and> k \<le> 57 then Some (k - 48) else None)"

fun read_digits :: "string \<Rightarrow> nat \<Rightarrow> nat option" where
  "read_digits [] acc = Some acc"
| "read_digits (c # cs) acc =
     (case digit_val c of None \<Rightarrow> None | Some d \<Rightarrow> read_digits cs (10 * acc + d))"

definition read_dec :: "string \<Rightarrow> int option" where
  "read_dec s =
     (case s of
        [] \<Rightarrow> None
      | c # cs \<Rightarrow>
          if c = CHR ''-'' then
            (case cs of
               [] \<Rightarrow> None
             | d # _ \<Rightarrow> if d = CHR ''0'' then None else map_option (\<lambda>n. - int n) (read_digits cs 0))
          else if c = CHR ''0'' \<and> cs \<noteq> [] then None
          else map_option int (read_digits s 0))"

definition read_ll :: "string \<Rightarrow> int option" where
  "read_ll s = (case read_dec s of None \<Rightarrow> None | Some n \<Rightarrow> if in_int64 n then Some n else None)"

definition dec_conv :: conv where
  "dec_conv = \<lparr>py_int = read_dec, string2ll = read_ll, ll2string = py_str\<rparr>"

definition empty_store :: store where
  "empty_store = \<lparr>entries = Map.empty, expiry = Map.empty\<rparr>"


text \<open>A store where the key of the demo record already holds a view counter.\<close>

definition viewed_store :: store where
  "viewed_store = \<lparr>entries = [''product:1001'' \<mapsto> RHash [''views'' \<mapsto> ''7'']], expiry = Map.empty\<rparr>"


text \<open>A store where the view list of one user is full: 50 entries.\<close>

definition full_views :: store where
  "full_views = \<lparr>entries = [''views:U12345'' \<mapsto> RList (replicate 50 ''P000'')],
                 expiry = Map.empty\<rparr>"

text \<open>A store where one address has used up a limit of 100, 42 seconds of its window left.\<close>

definition busy_store :: store where
  "busy_store = \<lparr>entries = [''rate_limit:192.168.1.100'' \<mapsto> RString ''100''],
                 expiry = [''rate_limit:192.168.1.100'' \<mapsto> 42]\<rparr>"

text \<open>A store where the cart of one user holds \<open>n\<close> products.\<close>

definition big_cart :: "nat \<Rightarrow> store" where
  "big_cart n =
     \<lparr>entries = [cart_key ''U12345'' \<mapsto>
                   RHash (map_of (map (\<lambda>i. (replicate i CHR ''P'', ''1'')) [0..<n]))],
      expiry = Map.empty\<rparr>"

text \<open>The three capacities at once, for every user.\<close>

definition lists_bounded :: "store \<Rightarrow> bool" where
  "lists_bounded s =
     ((\<forall>user_id. llen s (views_key user_id) \<le> 50)
      \<and> (\<forall>user_id. llen s (notifications_key user_id) \<le> 100)
      \<and> llen s ''analytics:events'' \<le> 10000)"


section \<open>Properties of the static table\<close>

lemma slots_of_master_1: "slots_of_master ''Master 1 (redis-node-1)'' = {0..5460}"
  by (auto simp: slots_of_master_def get_master_for_slot_def)

lemma slots_of_master_2: "slots_of_master ''Master 2 (redis-node-2)'' = {5461..10922}"
  by (auto simp: slots_of_master_def get_master_for_slot_def)

lemma slots_of_master_3: "slots_of_master ''Master 3 (redis-node-3)'' = {10923..16383}"
  by (auto simp: slots_of_master_def get_master_for_slot_def)

text \<open>
  C1. For every slot in [0,16383] \<^const>\<open>get_master_for_slot\<close> returns a value (it is a
  total function with no error branch): the Master 1 / redis-node-1 label on [0,5460], the
  Master 2 / redis-node-2 label on [5461,10922] and the Master 3 / redis-node-3 label on
  [10923,16383]; the inline chain of \<^verbatim>\<open>demo_distribution\<close> gives the same label.
\<close>

theorem get_master_for_slot_ranges:
  assumes "0 \<le> s" and "s \<le> 16383"
  shows "(s \<le> 5460 \<longrightarrow>
            get_master_for_slot s = (''Master 1 (redis-node-1)'', ''172.28.0.2''))
       \<and> (5461 \<le> s \<and> s \<le> 10922 \<longrightarrow>
            get_master_for_slot s = (''Master 2 (redis-node-2)'', ''172.28.0.3''))
       \<and> (10923 \<le> s \<longrightarrow>
            get_master_for_slot s = (''Master 3 (redis-node-3)'', ''172.28.0.4''))
       \<and> demo_distribution_master s = fst (get_master_for_slot s)"
  using assms by (simp add: get_master_for_slot_def demo_distribution_master_def)

theorem get_master_for_slot_ranges_witness:
  "get_master_for_slot 0 = (''Master 1 (redis-node-1)'', ''172.28.0.2'')
   \<and> get_master_for_slot 5460 = (''Master 1 (redis-node-1)'', ''172.28.0.2'')
   \<and> get_master_for_slot 5461 = (''Master 2 (redis-node-2)'', ''172.28.0.3'')
   \<and> get_master_for_slot 10922 = (''Master 2 (redis-node-2)'', ''172.28.0.3'')
   \<and> get_master_for_slot 10923 = (''Master 3 (redis-node-3)'', ''172.28.0.4'')
   \<and> get_master_for_slot 16383 = (''Master 3 (redis-node-3)'', ''172.28.0.4'')"
  using get_master_for_slot_ranges [of 0] get_master_for_slot_ranges [of 5460]
    get_master_for_slot_ranges [of 5461] get_master_for_slot_ranges [of 10922]
    get_master_for_slot_ranges [of 10923] get_master_for_slot_ranges [of 16383]
  by simp

text \<open>
  C3, as stated: the three ranges of the table hold the same number of slots. It fails:
  the middle range [5461,10922] holds 5462 slots, the outer two 5461 each (16384 is not a
  multiple of 3; the banner printed by \<^verbatim>\<open>demo_distribution\<close> gives these very counts).
\<close>

theorem partition_sizes_equal_counterexample:
  "\<not> (partition_size ''Master 1 (redis-node-1)'' = partition_size ''Master 2 (redis-node-2)''
      \<and> partition_size ''Master 2 (redis-node-2)'' = partition_size ''Master 3 (redis-node-3)'')"
  by (simp add: partition_size_def slots_of_master_1 slots_of_master_2 slots_of_master_3)

text \<open>
  C3, amended: the table splits the 16384 slots into the three contiguous ranges
  [0,5460], [5461,10922], [10923,16383], which are pairwise disjoint, cover the whole slot
  space, and hold 5461, 5462 and 5461 slots: near-equal, sizes differing by at most one.
\<close>

theorem partition_sizes:
  "slots_of_master ''Master 1 (redis-node-1)'' = {0..5460}
   \<and> slots_of_master ''Master 2 (redis-node-2)'' = {5461..10922}
   \<and> slots_of_master ''Master 3 (redis-node-3)'' = {10923..16383}
   \<and> partition_size ''Master 1 (redis-node-1)'' = 5461
   \<and> partition_size ''Master 2 (redis-node-2)'' = 5462
   \<and> partition_size ''Master 3 (redis-node-3)'' = 5461
   \<and> slots_of_master ''Master 1 (redis-node-1)'' \<union> slots_of_master ''Master 2 (redis-node-2)''
       \<union> slots_of_master ''Master 3 (redis-node-3)'' = {0..16383}
   \<and> slots_of_master ''Master 1 (redis-node-1)'' \<inter> slots_of_master ''Master 2 (redis-node-2)'' = {}
   \<and> slots_of_master ''Master 2 (redis-node-2)'' \<inter> slots_of_master ''Master 3 (redis-node-3)'' = {}
   \<and> slots_of_master ''Master 1 (redis-node-1)'' \<inter> slots_of_master ''Master 3 (redis-node-3)'' = {}
   \<and> partition_size ''Master 1 (redis-node-1)'' + partition_size ''Master 2 (redis-node-2)''
       + partition_size ''Master 3 (redis-node-3)'' = 16384"
  unfolding partition_size_def slots_of_master_1 slots_of_master_2 slots_of_master_3
  by auto


section \<open>Properties of hash tags and key slots\<close>

lemma takeWhile_stop: "\<not> P y \<Longrightarrow> takeWhile P (xs @ y # ys) = takeWhile P xs"
  by (induction xs) auto

lemma hash_tag_category_prefix:
  "hash_tag (''{category:'' @ category @ ''}'' @ suffix)
     = Some (''category:'' @ takeWhile (\<lambda>c. c \<noteq> CHR ''}'') category)"
proof -
  have "takeWhile (\<lambda>c. c \<noteq> CHR ''}'') (category @ CHR ''}'' # suffix)
          = takeWhile (\<lambda>c. c \<noteq> CHR ''}'') category"
    by (rule takeWhile_stop) simp
  then show ?thesis by (simp add: hash_tag_def)
qed

lemma hashed_part_category_key:
  "hashed_part (category_key c) = ''category:'' @ takeWhile (\<lambda>c. c \<noteq> CHR ''}'') c"
  using hash_tag_category_prefix [of c "[]"] by (simp add: hashed_part_def category_key_def)

lemma hashed_part_products_key:
  "hashed_part (products_key c) = ''category:'' @ takeWhile (\<lambda>c. c \<noteq> CHR ''}'') c"
  using hash_tag_category_prefix [of c "'':products''"]
  by (simp add: hashed_part_def products_key_def)

lemma hashed_part_product_key:
  "hashed_part (product_key c pid) = ''category:'' @ takeWhile (\<lambda>c. c \<noteq> CHR ''}'') c"
  using hash_tag_category_prefix [of c "'':product:'' @ pid"]
  by (simp add: hashed_part_def product_key_def)

lemma all_slots_const:
  "set (all_slots crc16 c pids) = {cluster_keyslot crc16 (category_key c)}"
  by (auto simp: all_slots_def cluster_keyslot_def hashed_part_category_key
      hashed_part_products_key hashed_part_product_key)

lemma remdups_singleton: "set xs = {x} \<Longrightarrow> length (remdups xs) = 1"
proof -
  assume "set xs = {x}"
  then have "card (set (remdups xs)) = 1" by simp
  then show ?thesis by (simp only: distinct_card [OF distinct_remdups])
qed

text \<open>
  C2. Two keys with the same hash tag have the same slot, whatever the checksum. The keys
  that the scripts build for one category (the category key, the product-list key and
  every product key) all start with the same brace group, so the flags \<^verbatim>\<open>same_slot\<close> of
  \<^verbatim>\<open>verify_hash_tags.main\<close> and \<^verbatim>\<open>all_same\<close> of \<^verbatim>\<open>category_products_demo.main\<close> are true
  for every category name and every list of product ids; in particular
  \<^verbatim>\<open>{category:electronics}\<close> and \<^verbatim>\<open>{category:electronics}:products\<close> have one slot.
\<close>

theorem hash_tag_same_slot:
  "(hash_tag k1 = Some t \<and> hash_tag k2 = Some t \<longrightarrow>
      cluster_keyslot crc16 k1 = cluster_keyslot crc16 k2)
   \<and> same_slot crc16 category
   \<and> all_same crc16 category product_ids
   \<and> cluster_keyslot crc16 ''{category:electronics}''
       = cluster_keyslot crc16 ''{category:electronics}:products''"
proof -
  have a: "hash_tag k1 = Some t \<and> hash_tag k2 = Some t \<longrightarrow>
             cluster_keyslot crc16 k1 = cluster_keyslot crc16 k2"
    by (simp add: cluster_keyslot_def hashed_part_def)
  have b: "same_slot crc16 category"
    by (simp add: same_slot_def cluster_keyslot_def hashed_part_category_key
        hashed_part_products_key)
  have c: "all_same crc16 category product_ids"
    unfolding all_same_def by (rule remdups_singleton) (rule all_slots_const)
  have d: "cluster_keyslot crc16 ''{category:electronics}''
             = cluster_keyslot crc16 ''{category:electronics}:products''"
    by (simp add: cluster_keyslot_def hashed_part_def hash_tag_def)
  from a b c d show ?thesis by blast
qed

theorem hash_tag_same_slot_witness:
  "hash_tag ''{category:books}'' = Some ''category:books''
   \<and> hash_tag ''{category:books}:product:P101'' = Some ''category:books''
   \<and> cluster_keyslot sum_codes ''{category:books}'' = 1462
   \<and> cluster_keyslot sum_codes ''{category:books}:product:P101'' = 1462"
proof -
  have t1: "hash_tag ''{category:books}'' = Some ''category:books''"
    by (simp add: hash_tag_def)
  have t2: "hash_tag ''{category:books}:product:P101'' = Some ''category:books''"
    by (simp add: hash_tag_def)
  have v: "cluster_keyslot sum_codes ''{category:books}'' = 1462"
    by (simp add: cluster_keyslot_def hashed_part_def t1 sum_codes_def)
  from hash_tag_same_slot [of "''{category:books}''" "''category:books''"
      "''{category:books}:product:P101''" sum_codes "''books''" "[]"] t1 t2 v
  show ?thesis by simp
qed


section \<open>Properties of the topology lookup\<close>

lemma int_pair_cases: "int_pair r \<Longrightarrow> \<exists>a b. r = PList [PInt a, PInt b]"
  by (induction r rule: int_pair.induct) auto

lemma str_pair_cases: "str_pair r \<Longrightarrow> \<exists>a b. r = PList [PStr a, PStr b]"
  by (induction r rule: str_pair.induct) auto

lemma find_node_int_step:
  assumes "int_ranges node_info"
  shows "find_node ((node_id, node_info) # rest) slot =
     (if first_range_holds node_info slot
      then Inr (dict_get node_info ''host'' PNone, dict_get node_info ''port'' PNone, slot)
      else find_node rest slot)"
proof -
  from assms obtain rs where rs: "ranges_of node_info = PList rs" "list_all int_pair rs"
    by (auto simp: int_ranges_def split: pyval.splits)
  show ?thesis
  proof (cases rs)
    case Nil
    with rs show ?thesis
      by (simp add: first_range_holds_def ranges_of_def [symmetric])
  next
    case (Cons r rs')
    with rs(2) have "int_pair r" by simp
    from int_pair_cases [OF this] obtain a b where r: "r = PList [PInt a, PInt b]"
      by blast
    from rs(1) Cons r show ?thesis
      by (simp add: first_range_holds_def ranges_of_def [symmetric] chained_le_def)
  qed
qed

lemma find_node_client_step:
  assumes "client_shaped node_info"
  shows "find_node ((node_id, node_info) # rest) slot =
     (if ranges_of node_info = PList [] then find_node rest slot else Inl TypeError)"
proof -
  from assms obtain rs where rs: "ranges_of node_info = PList rs" "list_all str_pair rs"
    and m: "dict_get node_info ''master'' PNone = PNone"
    by (auto simp: client_shaped_def dict_get_def split: pyval.splits)
  show ?thesis
  proof (cases rs)
    case Nil
    with rs m show ?thesis by (simp add: ranges_of_def [symmetric])
  next
    case (Cons r rs')
    with rs(2) have "str_pair r" by simp
    from str_pair_cases [OF this] obtain a b where r: "r = PList [PStr a, PStr b]"
      by blast
    from rs(1) Cons r m show ?thesis
      by (simp add: ranges_of_def [symmetric] chained_le_def)
  qed
qed

lemma find_node_client:
  "\<forall>(node_id, node_info) \<in> set nodes. client_shaped node_info \<Longrightarrow>
     find_node nodes slot =
       (if \<forall>(node_id, node_info) \<in> set nodes. ranges_of node_info = PList []
        then Inr (PNone, PNone, slot) else Inl TypeError)"
proof (induction nodes)
  case Nil
  then show ?case by simp
next
  case (Cons x nodes)
  obtain node_id node_info where x: "x = (node_id, node_info)" by (cases x)
  from Cons.prems x have c: "client_shaped node_info" by simp
  from Cons.prems have "\<forall>(node_id, node_info) \<in> set nodes. client_shaped node_info" by simp
  from Cons.IH [OF this] show ?case
    unfolding x find_node_client_step [OF c] by simp
qed

lemma find_node_int_third:
  "\<forall>(node_id, node_info) \<in> set nodes. int_ranges node_info \<Longrightarrow>
     \<exists>h p. find_node nodes slot = Inr (h, p, slot)"
proof (induction nodes)
  case Nil
  then show ?case by simp
next
  case (Cons x nodes)
  obtain node_id node_info where x: "x = (node_id, node_info)" by (cases x)
  from Cons.prems x have c: "int_ranges node_info" by simp
  from Cons.prems have "\<forall>(node_id, node_info) \<in> set nodes. int_ranges node_info" by simp
  from Cons.IH [OF this] show ?case
    unfolding x find_node_int_step [OF c] by simp
qed

lemma find_node_int_hit:
  "\<forall>(node_id, node_info) \<in> set nodes. int_ranges node_info \<Longrightarrow>
   find_node nodes slot = Inr (h, p, sl) \<Longrightarrow> h \<noteq> PNone \<or> p \<noteq> PNone \<Longrightarrow>
     \<exists>(node_id, node_info) \<in> set nodes. first_range_holds node_info slot
        \<and> h = dict_get node_info ''host'' PNone \<and> p = dict_get node_info ''port'' PNone"
proof (induction nodes)
  case Nil
  then show ?case by simp
next
  case (Cons x nodes)
  obtain node_id node_info where x: "x = (node_id, node_info)" by (cases x)
  from Cons.prems(1) x have c: "int_ranges node_info" by simp
  from Cons.prems(1) have r: "\<forall>(node_id, node_info) \<in> set nodes. int_ranges node_info" by simp
  show ?case
  proof (cases "first_range_holds node_info slot")
    case True
    with Cons.prems(2) show ?thesis
      unfolding x find_node_int_step [OF c] by simp
  next
    case False
    with Cons.prems(2) have "find_node nodes slot = Inr (h, p, sl)"
      unfolding x find_node_int_step [OF c] by simp
    from Cons.IH [OF r this Cons.prems(3)] show ?thesis by auto
  qed
qed

lemma find_node_int_miss:
  "\<forall>(node_id, node_info) \<in> set nodes. int_ranges node_info \<Longrightarrow>
   \<forall>(node_id, node_info) \<in> set nodes. \<not> first_range_holds node_info slot \<Longrightarrow>
     find_node nodes slot = Inr (PNone, PNone, slot)"
proof (induction nodes)
  case Nil
  then show ?case by simp
next
  case (Cons x nodes)
  obtain node_id node_info where x: "x = (node_id, node_info)" by (cases x)
  from Cons.prems(1) x have c: "int_ranges node_info" by simp
  from Cons.prems(2) x have f: "\<not> first_range_holds node_info slot" by simp
  from Cons.prems have "find_node nodes slot = Inr (PNone, PNone, slot)"
    by (intro Cons.IH) simp_all
  then show ?case
    unfolding x find_node_int_step [OF c] using f by simp
qed


text \<open>
  C8. On ranges that are pairs of integers \<^const>\<open>get_node_for_key\<close> does what the claim
  says: it returns, the third component is the slot, a host or port it gives is that of a
  master whose first listed range holds the slot, and when no master's first range holds
  the slot it gives (None, None, slot), also when a later range of a master holds it. On
  the topology that the client gives, the ranges are lists of two strings and the
  comparison with the slot raises TypeError at the first node that lists a range: the
  function returns only when no node lists any range. For a master listing the ranges
  0-100 and 5000-6000 and a key of slot 5500, no first range holds the slot and the
  function raises instead of giving (None, None, 5500).
\<close>

theorem get_node_for_key_client_topology:
  "get_node_for_key (\<lambda>_. 5500) client_nodes ''product:00123'' = Inl TypeError
   \<and> ((\<forall>(node_id, node_info) \<in> set nodes. client_shaped node_info) \<longrightarrow>
        get_node_for_key keyslot nodes key =
          (if \<forall>(node_id, node_info) \<in> set nodes. ranges_of node_info = PList []
           then Inr (PNone, PNone, keyslot key) else Inl TypeError))
   \<and> ((\<forall>(node_id, node_info) \<in> set nodes. int_ranges node_info) \<longrightarrow>
        (\<exists>h p. get_node_for_key keyslot nodes key = Inr (h, p, keyslot key)
           \<and> (h \<noteq> PNone \<or> p \<noteq> PNone \<longrightarrow>
                (\<exists>(node_id, node_info) \<in> set nodes.
                    first_range_holds node_info (keyslot key)
                  \<and> h = dict_get node_info ''host'' PNone
                  \<and> p = dict_get node_info ''port'' PNone)))
        \<and> ((\<forall>(node_id, node_info) \<in> set nodes. \<not> first_range_holds node_info (keyslot key)) \<longrightarrow>
              get_node_for_key keyslot nodes key = Inr (PNone, PNone, keyslot key)))"
proof -
  have a: "get_node_for_key (\<lambda>_. 5500) client_nodes ''product:00123'' = Inl TypeError"
    by (simp add: get_node_for_key_def client_nodes_def client_replica_def client_master_def
        dict_get_def chained_le_def)
  have b: "(\<forall>(node_id, node_info) \<in> set nodes. client_shaped node_info) \<longrightarrow>
        get_node_for_key keyslot nodes key =
          (if \<forall>(node_id, node_info) \<in> set nodes. ranges_of node_info = PList []
           then Inr (PNone, PNone, keyslot key) else Inl TypeError)"
    using find_node_client [of nodes "keyslot key"] by (simp add: get_node_for_key_def)
  have c: "(\<forall>(node_id, node_info) \<in> set nodes. int_ranges node_info) \<longrightarrow>
        (\<exists>h p. get_node_for_key keyslot nodes key = Inr (h, p, keyslot key)
           \<and> (h \<noteq> PNone \<or> p \<noteq> PNone \<longrightarrow>
                (\<exists>(node_id, node_info) \<in> set nodes.
                    first_range_holds node_info (keyslot key)
                  \<and> h = dict_get node_info ''host'' PNone
                  \<and> p = dict_get node_info ''port'' PNone)))
        \<and> ((\<forall>(node_id, node_info) \<in> set nodes. \<not> first_range_holds node_info (keyslot key)) \<longrightarrow>
              get_node_for_key keyslot nodes key = Inr (PNone, PNone, keyslot key))"
  proof
    assume t: "\<forall>(node_id, node_info) \<in> set nodes. int_ranges node_info"
    from find_node_int_third [OF t, of "keyslot key"] obtain h p where
      r: "find_node nodes (keyslot key) = Inr (h, p, keyslot key)" by blast
    have hit: "h \<noteq> PNone \<or> p \<noteq> PNone \<longrightarrow>
                (\<exists>(node_id, node_info) \<in> set nodes.
                    first_range_holds node_info (keyslot key)
                  \<and> h = dict_get node_info ''host'' PNone
                  \<and> p = dict_get node_info ''port'' PNone)"
      using find_node_int_hit [OF t r] by blast
    have miss: "(\<forall>(node_id, node_info) \<in> set nodes. \<not> first_range_holds node_info (keyslot key)) \<longrightarrow>
              find_node nodes (keyslot key) = Inr (PNone, PNone, keyslot key)"
      using find_node_int_miss [OF t] by blast
    from r hit miss
    show "(\<exists>h p. get_node_for_key keyslot nodes key = Inr (h, p, keyslot key)
           \<and> (h \<noteq> PNone \<or> p \<noteq> PNone \<longrightarrow>
                (\<exists>(node_id, node_info) \<in> set nodes.
                    first_range_holds node_info (keyslot key)
                  \<and> h = dict_get node_info ''host'' PNone
                  \<and> p = dict_get node_info ''port'' PNone)))
        \<and> ((\<forall>(node_id, node_info) \<in> set nodes. \<not> first_range_holds node_info (keyslot key)) \<longrightarrow>
              get_node_for_key keyslot nodes key = Inr (PNone, PNone, keyslot key))"
      by (simp add: get_node_for_key_def)
  qed
  from a b c show ?thesis by blast
qed

theorem get_node_for_key_client_topology_witness:
  "client_shaped client_replica \<and> client_shaped client_master
   \<and> ranges_of client_master \<noteq> PList []
   \<and> get_node_for_key (\<lambda>_. 5500) client_nodes ''product:00123'' = Inl TypeError
   \<and> get_node_for_key (\<lambda>_. 50) client_nodes ''product:00123'' = Inl TypeError
   \<and> int_ranges a_replica \<and> int_ranges split_master
   \<and> owns_slot split_master 5500
   \<and> \<not> first_range_holds split_master 5500 \<and> \<not> first_range_holds a_replica 5500
   \<and> get_node_for_key (\<lambda>_. 5500) two_nodes ''product:00123'' = Inr (PNone, PNone, 5500)
   \<and> first_range_holds split_master 50
   \<and> get_node_for_key (\<lambda>_. 50) two_nodes ''product:00123''
       = Inr (PStr ''172.28.0.2'', PInt 6379, 50)"
proof -
  have cs: "client_shaped client_replica" "client_shaped client_master"
    by (simp_all add: client_shaped_def client_replica_def client_master_def ranges_of_def
        dict_get_def)
  have ne: "ranges_of client_master \<noteq> PList []"
    by (simp add: client_master_def ranges_of_def dict_get_def)
  have all_cs: "\<forall>(node_id, node_info) \<in> set client_nodes. client_shaped node_info"
    using cs by (simp add: client_nodes_def)
  have some: "\<not> (\<forall>(node_id, node_info) \<in> set client_nodes. ranges_of node_info = PList [])"
    using ne by (simp add: client_nodes_def)
  from get_node_for_key_client_topology [of client_nodes "\<lambda>_. 50" "''product:00123''"] all_cs some
  have e50: "get_node_for_key (\<lambda>_. 50) client_nodes ''product:00123'' = Inl TypeError"
    by simp
  from get_node_for_key_client_topology [of client_nodes "\<lambda>_. 5500" "''product:00123''"]
  have e5500: "get_node_for_key (\<lambda>_. 5500) client_nodes ''product:00123'' = Inl TypeError"
    by blast
  have ir: "int_ranges a_replica" "int_ranges split_master"
    by (simp_all add: int_ranges_def a_replica_def split_master_def ranges_of_def dict_get_def)
  have all_ir: "\<forall>(node_id, node_info) \<in> set two_nodes. int_ranges node_info"
    using ir by (simp add: two_nodes_def)
  have nf: "\<not> first_range_holds split_master 5500" "\<not> first_range_holds a_replica 5500"
    by (simp_all add: first_range_holds_def a_replica_def split_master_def ranges_of_def
        dict_get_def)
  have all_nf: "\<forall>(node_id, node_info) \<in> set two_nodes. \<not> first_range_holds node_info 5500"
    using nf by (simp add: two_nodes_def)
  from get_node_for_key_client_topology [of two_nodes "\<lambda>_. 5500" "''product:00123''"] all_ir all_nf
  have miss: "get_node_for_key (\<lambda>_. 5500) two_nodes ''product:00123'' = Inr (PNone, PNone, 5500)"
    by blast
  have own: "owns_slot split_master 5500"
    by (simp add: owns_slot_def split_master_def ranges_of_def dict_get_def)
  have fh: "first_range_holds split_master 50"
    by (simp add: first_range_holds_def split_master_def ranges_of_def dict_get_def)
  have hit: "get_node_for_key (\<lambda>_. 50) two_nodes ''product:00123''
       = Inr (PStr ''172.28.0.2'', PInt 6379, 50)"
    by (simp add: get_node_for_key_def two_nodes_def a_replica_def split_master_def
        dict_get_def chained_le_def)
  from cs ne e50 e5500 ir own nf miss fh hit show ?thesis by simp
qed


section \<open>Properties of the startup\<close>

text \<open>
  C5. When the constructor of the client raises, each of the three scripts prints its
  banner and the line reporting the failure, and that is its whole run: the entry function
  returns there, so the run holds no cluster operation, whatever the rest of the script
  would do with a client.
\<close>

theorem connection_failure_stops:
  assumes "connect = Inl e"
  shows "verify_hash_tags_main connect body
           = [Print (banner 80),
              Print (glyph_magnifier @ '' VERIFYING HASH TAGS - Where Each Category is Stored''),
              Print (banner 80), Print connecting_line, Print (failed_line e)]
       \<and> cluster_ops (verify_hash_tags_main connect body) = []
       \<and> clear_all_keys connect body2
           = [Print (banner 60), Print (glyph_bin @ ''  Clearing All Keys from Redis Cluster''),
              Print (banner 60), Print connecting_line, Print (failed_line e)]
       \<and> cluster_ops (clear_all_keys connect body2) = []
       \<and> category_products_demo_main connect body3
           = [Print (banner 70),
              Print (glyph_bags @ ''  CATEGORY & PRODUCTS DEMO - Using Hash Tags {{}}''),
              Print (banner 70), Print connecting_line, Print (failed_line e)]
       \<and> cluster_ops (category_products_demo_main connect body3) = []"
  using assms
  by (simp add: verify_hash_tags_main_def clear_all_keys_def category_products_demo_main_def
      try_connect_def)

theorem connection_failure_stops_witness:
  "cluster_ops (verify_hash_tags_main (Inl ''Connection refused'')
       (\<lambda>rc::unit. [Cluster ''SCAN'', Print ''done''])) = []
   \<and> last (verify_hash_tags_main (Inl ''Connection refused'')
       (\<lambda>rc::unit. [Cluster ''SCAN'', Print ''done'']))
       = Print (failed_line ''Connection refused'')
   \<and> cluster_ops (clear_all_keys (Inl ''Connection refused'')
       (\<lambda>rc::unit. [Cluster ''DEL'', Print ''done''])) = []
   \<and> cluster_ops (category_products_demo_main (Inl ''Connection refused'')
       (\<lambda>rc::unit. [Cluster ''HSET''])) = []
   \<and> cluster_ops (verify_hash_tags_main (Inr ())
       (\<lambda>rc::unit. [Cluster ''SCAN'', Print ''done''])) = [''SCAN'']"
  using connection_failure_stops [of "Inl ''Connection refused'' :: string + unit"
      "''Connection refused''" "\<lambda>rc::unit. [Cluster ''SCAN'', Print ''done'']"
      "\<lambda>rc::unit. [Cluster ''DEL'', Print ''done'']" "\<lambda>rc::unit. [Cluster ''HSET'']"]
  by (simp add: verify_hash_tags_main_def try_connect_def)


section \<open>Properties of the stock reservation\<close>


lemmas dec_defs = dec_conv_def read_dec_def read_ll_def digit_val_def

lemma lock_ne_product [simp]:
  "lock_key p \<noteq> product_hash_key q" "product_hash_key q \<noteq> lock_key p"
  by (simp_all add: lock_key_def product_hash_key_def)













section \<open>Properties of hash records\<close>

lemma set_fields_override: "set_fields items h = h ++ map_of (rev items)"
proof (induction items arbitrary: h)
  case Nil
  then show ?case by (simp add: set_fields_def)
next
  case (Cons x items)
  obtain f v where x: "x = (f, v)" by (cases x)
  have "set_fields (x # items) h = set_fields items (h(f \<mapsto> v))"
    by (simp add: set_fields_def x)
  also have "\<dots> = h(f \<mapsto> v) ++ map_of (rev items)" by (rule Cons.IH)
  also have "\<dots> = h ++ map_of (rev (x # items))"
    by (simp add: x map_add_upd_left fun_eq_iff map_add_def split: option.splits)
  finally show ?case .
qed

lemma map_of_rev_distinct: "distinct (map fst items) \<Longrightarrow> map_of (rev items) = map_of items"
  by (subst map_of_inject_set) (simp_all add: rev_map [symmetric])

lemma set_fields_distinct:
  "distinct (map fst items) \<Longrightarrow> set_fields items h = h ++ map_of items"
  by (simp add: set_fields_override map_of_rev_distinct)

lemma hset_mapping_hgetall:
  assumes "hset_mapping s key items = Inr s'" and "distinct (map fst items)"
  shows "hgetall s' key = Inr (hash_at s key ++ map_of items)"
  using assms
  by (auto simp: hset_mapping_def hgetall_def hash_at_def set_fields_distinct
      split: if_splits option.splits rvalue.splits)

lemma hset_mapping_fresh:
  assumes "hset_mapping s key items = Inr s'" and "distinct (map fst items)"
    and "entries s key = None"
  shows "hgetall s' key = Inr (map_of items)"
  using hset_mapping_hgetall [OF assms(1,2)] assms(3) by (simp add: hash_at_def)

text \<open>
  C6, as stated: a record written with \<^verbatim>\<open>hset\<close> and a mapping of N fields reads back
  with \<^verbatim>\<open>hgetall\<close> as exactly these N fields. It fails where the key holds a record
  already: \<^verbatim>\<open>hset\<close> sets the fields it is given and leaves the others. On a store where
  \<^verbatim>\<open>product:1001\<close> holds a field \<^verbatim>\<open>views\<close>, the write and read of \<^verbatim>\<open>demo.main\<close> give
  back a record that holds \<^verbatim>\<open>views\<close> too, a field that was not written.
\<close>

theorem hash_roundtrip_counterexample:
  "(case demo_hash_roundtrip viewed_store of
      Inl e \<Rightarrow> False
    | Inr h \<Rightarrow> h ''views'' = Some ''7'' \<and> map_of demo_mapping ''views'' = None
               \<and> h ''name'' = Some ''Redis Cluster Guide'')
   \<and> demo_hash_roundtrip viewed_store \<noteq> Inr (map_of demo_mapping)"
proof -
  have a: "(case demo_hash_roundtrip viewed_store of
      Inl e \<Rightarrow> False
    | Inr h \<Rightarrow> h ''views'' = Some ''7'' \<and> map_of demo_mapping ''views'' = None
               \<and> h ''name'' = Some ''Redis Cluster Guide'')"
    by (simp add: demo_hash_roundtrip_def hset_mapping_def hgetall_def viewed_store_def
      demo_mapping_def set_fields_def)
  then have "demo_hash_roundtrip viewed_store \<noteq> Inr (map_of demo_mapping)"
    by (auto split: sum.splits)
  with a show ?thesis by simp
qed

text \<open>
  C6, amended: after a successful \<^verbatim>\<open>hset\<close> with a mapping of N distinct fields (N is then
  at least 1), \<^verbatim>\<open>hgetall\<close> of the same key succeeds, every written field reads back with
  the value written, and every other field is as it was before the write. When the key
  did not exist before the write, the record read back is exactly the mapping: the same N
  fields with the same values. So it is for \<^const>\<open>add_product\<close> followed by
  \<^const>\<open>get_product\<close> (6 fields) and for the record of \<^verbatim>\<open>demo.main\<close> (4 fields).
\<close>

theorem hash_roundtrip:
  "(hset_mapping s key items = Inr s' \<and> distinct (map fst items) \<longrightarrow>
      items \<noteq> []
      \<and> hgetall s' key = Inr (hash_at s key ++ map_of items)
      \<and> (\<forall>(f, v) \<in> set items. (hash_at s key ++ map_of items) f = Some v)
      \<and> (\<forall>f. f \<notin> fst ` set items \<longrightarrow> (hash_at s key ++ map_of items) f = hash_at s key f)
      \<and> (entries s key = None \<longrightarrow>
            hgetall s' key = Inr (map_of items)
            \<and> dom (map_of items) = fst ` set items
            \<and> card (dom (map_of items)) = length items))
   \<and> (add_product s product_id name price stock category created_at = Inr s2
        \<and> entries s (product_hash_key product_id) = None \<longrightarrow>
        get_product s2 product_id
          = Inr (map_of (product_mapping name price stock category created_at))
        \<and> card (dom (map_of (product_mapping name price stock category created_at))) = 6)
   \<and> (entries s ''product:1001'' = None \<longrightarrow>
        demo_hash_roundtrip s = Inr (map_of demo_mapping)
        \<and> card (dom (map_of demo_mapping)) = 4)"
proof -
  have general: "hset_mapping s key items = Inr s' \<and> distinct (map fst items) \<longrightarrow>
      items \<noteq> []
      \<and> hgetall s' key = Inr (hash_at s key ++ map_of items)
      \<and> (\<forall>(f, v) \<in> set items. (hash_at s key ++ map_of items) f = Some v)
      \<and> (\<forall>f. f \<notin> fst ` set items \<longrightarrow> (hash_at s key ++ map_of items) f = hash_at s key f)
      \<and> (entries s key = None \<longrightarrow>
            hgetall s' key = Inr (map_of items)
            \<and> dom (map_of items) = fst ` set items
            \<and> card (dom (map_of items)) = length items)"
  proof
    assume a: "hset_mapping s key items = Inr s' \<and> distinct (map fst items)"
    then have w: "hset_mapping s key items = Inr s'" and d: "distinct (map fst items)"
      by simp_all
    have ne: "items \<noteq> []" using w by (auto simp: hset_mapping_def)
    have 1: "hgetall s' key = Inr (hash_at s key ++ map_of items)"
      by (rule hset_mapping_hgetall [OF w d])
    have 2: "\<forall>(f, v) \<in> set items. (hash_at s key ++ map_of items) f = Some v"
      using d by (auto simp: map_add_def)
    have 3: "\<forall>f. f \<notin> fst ` set items \<longrightarrow>
               (hash_at s key ++ map_of items) f = hash_at s key f"
    proof (intro allI impI)
      fix f assume "f \<notin> fst ` set items"
      then have "map_of items f = None" by (simp add: map_of_eq_None_iff)
      then show "(hash_at s key ++ map_of items) f = hash_at s key f"
        by (simp add: map_add_def)
    qed
    have c: "card (dom (map_of items)) = length items"
      using distinct_card [OF d] by (simp add: dom_map_of_conv_image_fst)
    have 4: "entries s key = None \<longrightarrow>
            hgetall s' key = Inr (map_of items)
            \<and> dom (map_of items) = fst ` set items
            \<and> card (dom (map_of items)) = length items"
      using 1 c by (simp add: hash_at_def dom_map_of_conv_image_fst)
    from ne 1 2 3 4 show "items \<noteq> []
      \<and> hgetall s' key = Inr (hash_at s key ++ map_of items)
      \<and> (\<forall>(f, v) \<in> set items. (hash_at s key ++ map_of items) f = Some v)
      \<and> (\<forall>f. f \<notin> fst ` set items \<longrightarrow> (hash_at s key ++ map_of items) f = hash_at s key f)
      \<and> (entries s key = None \<longrightarrow>
            hgetall s' key = Inr (map_of items)
            \<and> dom (map_of items) = fst ` set items
            \<and> card (dom (map_of items)) = length items)"
      by blast
  qed
  have dp: "distinct (map fst (product_mapping name price stock category created_at))"
    by (simp add: product_mapping_def)
  have cp: "card (dom (map_of (product_mapping name price stock category created_at))) = 6"
    using distinct_card [OF dp]
    by (simp only: dom_map_of_conv_image_fst set_map [symmetric]) (simp add: product_mapping_def)
  have product: "add_product s product_id name price stock category created_at = Inr s2
        \<and> entries s (product_hash_key product_id) = None \<longrightarrow>
        get_product s2 product_id
          = Inr (map_of (product_mapping name price stock category created_at))
        \<and> card (dom (map_of (product_mapping name price stock category created_at))) = 6"
    using hset_mapping_fresh [OF _ dp] cp
    by (auto simp: add_product_def get_product_def)
  have dd: "distinct (map fst demo_mapping)" by (simp add: demo_mapping_def)
  have cd: "card (dom (map_of demo_mapping)) = 4"
    using distinct_card [OF dd]
    by (simp only: dom_map_of_conv_image_fst set_map [symmetric]) (simp add: demo_mapping_def)
  have demo: "entries s ''product:1001'' = None \<longrightarrow>
        demo_hash_roundtrip s = Inr (map_of demo_mapping)
        \<and> card (dom (map_of demo_mapping)) = 4"
  proof
    assume e: "entries s ''product:1001'' = None"
    then obtain s1 where w: "hset_mapping s ''product:1001'' demo_mapping = Inr s1"
      by (simp add: hset_mapping_def demo_mapping_def)
    from hset_mapping_fresh [OF w dd e] w cd
    show "demo_hash_roundtrip s = Inr (map_of demo_mapping)
        \<and> card (dom (map_of demo_mapping)) = 4"
      by (simp add: demo_hash_roundtrip_def)
  qed
  from general product demo show ?thesis by blast
qed

theorem hash_roundtrip_witness:
  "hset_mapping empty_store ''product:1001'' demo_mapping \<noteq> Inl DataError
   \<and> distinct (map fst demo_mapping)
   \<and> entries empty_store ''product:1001'' = None
   \<and> demo_hash_roundtrip empty_store = Inr (map_of demo_mapping)
   \<and> card (dom (map_of demo_mapping)) = 4"
proof -
  have d: "distinct (map fst demo_mapping)" by (simp add: demo_mapping_def)
  have e: "entries empty_store ''product:1001'' = None" by (simp add: empty_store_def)
  obtain s' where w: "hset_mapping empty_store ''product:1001'' demo_mapping = Inr s'"
    by (simp add: hset_mapping_def empty_store_def demo_mapping_def)
  from hash_roundtrip [of empty_store "''product:1001''" demo_mapping s'] e
  have "demo_hash_roundtrip empty_store = Inr (map_of demo_mapping)"
    and "card (dom (map_of demo_mapping)) = 4"
    by blast+
  with w d e show ?thesis by simp
qed


section \<open>Properties of the trimmed lists\<close>

lemma lpush_result:
  "lpush s key v = Inr s1 \<Longrightarrow>
     entries s1 key = Some (RList (v # list_at s key))
     \<and> (\<forall>k. k \<noteq> key \<longrightarrow> entries s1 k = entries s k)"
  by (auto simp: lpush_def list_at_def split: option.splits rvalue.splits)

lemma lpush_succeeds:
  "entries s key = None \<or> (\<exists>xs. entries s key = Some (RList xs)) \<Longrightarrow> \<exists>s1. lpush s key v = Inr s1"
  by (auto simp: lpush_def)

lemma ltrim_head:
  assumes "entries s1 key = Some (RList xs)" and "xs \<noteq> []" and "0 \<le> stop"
  shows "\<exists>s2. ltrim s1 key 0 stop = Inr s2
           \<and> entries s2 key = Some (RList (take (nat stop + 1) xs))
           \<and> (\<forall>k. k \<noteq> key \<longrightarrow> entries s2 k = entries s1 k)"
proof -
  have len: "0 < length xs" using assms(2) by simp
  have t: "take (nat (min stop (int (length xs) - 1) - 0 + 1)) (drop (nat 0) xs) = take (nat stop + 1) xs"
  proof (cases "stop \<le> int (length xs) - 1")
    case True
    with assms(3) show ?thesis by (simp add: min_def nat_add_distrib)
  next
    case False
    then have "length xs \<le> nat stop + 1" by linarith
    moreover from False len have "nat (min stop (int (length xs) - 1) - 0 + 1) = length xs"
      by (simp add: min_def)
    ultimately show ?thesis by simp
  qed
  have ne: "take (nat stop + 1) xs \<noteq> []" using assms(2) by (cases xs) auto
  show ?thesis
    using assms(1,3) len ne t
    by (simp add: ltrim_def Let_def)
qed

lemma push_trim:
  assumes "lpush s key v = Inr s1" and "0 \<le> stop"
  shows "\<exists>s2. ltrim s1 key 0 stop = Inr s2
           \<and> list_at s2 key = take (nat stop + 1) (v # list_at s key)
           \<and> llen s2 key \<le> nat stop + 1
           \<and> (\<forall>k. k \<noteq> key \<longrightarrow> entries s2 k = entries s k)"
proof -
  from lpush_result [OF assms(1)]
  have e: "entries s1 key = Some (RList (v # list_at s key))"
    and o: "\<forall>k. k \<noteq> key \<longrightarrow> entries s1 k = entries s k" by blast+
  from ltrim_head [OF e _ assms(2)] obtain s2 where
    "ltrim s1 key 0 stop = Inr s2"
    "entries s2 key = Some (RList (take (nat stop + 1) (v # list_at s key)))"
    "\<forall>k. k \<noteq> key \<longrightarrow> entries s2 k = entries s1 k" by auto
  with o show ?thesis by (auto simp: list_at_def llen_def)
qed

lemma track_product_view_post:
  assumes "track_product_view s user_id product_id = Inr s'"
  shows "list_at s' (views_key user_id) = take 50 (product_id # list_at s (views_key user_id))
       \<and> llen s' (views_key user_id) \<le> 50
       \<and> (\<forall>k. k \<noteq> views_key user_id \<longrightarrow> entries s' k = entries s k)"
proof -
  from assms obtain s1 where p: "lpush s (views_key user_id) product_id = Inr s1"
    and t: "ltrim s1 (views_key user_id) 0 49 = Inr s'"
    by (auto simp: track_product_view_def split: sum.splits)
  from push_trim [OF p, of 49] t show ?thesis by simp
qed

lemma add_notification_post:
  assumes "add_notification dumps s user_id ntype message = Inr s'"
  shows "list_at s' (notifications_key user_id)
           = take 100 (dumps ntype message # list_at s (notifications_key user_id))
       \<and> llen s' (notifications_key user_id) \<le> 100
       \<and> (\<forall>k. k \<noteq> notifications_key user_id \<longrightarrow> entries s' k = entries s k)"
proof -
  from assms obtain s1 where p: "lpush s (notifications_key user_id) (dumps ntype message) = Inr s1"
    and t: "ltrim s1 (notifications_key user_id) 0 99 = Inr s'"
    by (auto simp: add_notification_def split: sum.splits)
  from push_trim [OF p, of 99] t show ?thesis by simp
qed

lemma track_event_post:
  assumes "track_event dumps s event_type user_id product_id = Inr s'"
  shows "list_at s' ''analytics:events''
           = take 10000 (dumps event_type user_id product_id # list_at s ''analytics:events'')
       \<and> llen s' ''analytics:events'' \<le> 10000
       \<and> (\<forall>k. k \<noteq> ''analytics:events'' \<longrightarrow> entries s' k = entries s k)"
proof -
  from assms obtain s1 where p: "lpush s ''analytics:events'' (dumps event_type user_id product_id) = Inr s1"
    and t: "ltrim s1 ''analytics:events'' 0 9999 = Inr s'"
    by (auto simp: track_event_def split: sum.splits)
  from push_trim [OF p, of 9999] t show ?thesis by simp
qed

lemma hset_result:
  "hset s key field v = Inr s1 \<Longrightarrow>
     entries s1 key = Some (RHash ((hash_at s key)(field \<mapsto> v)))
     \<and> (\<forall>k. k \<noteq> key \<longrightarrow> entries s1 k = entries s k)"
  by (auto simp: hset_def hash_at_def split: option.splits rvalue.splits)

lemma add_to_cart_keeps:
  assumes "add_to_cart s user_id product_id quantity = Inr s'"
  shows "hash_at s' (cart_key user_id) = (hash_at s (cart_key user_id))(product_id \<mapsto> py_str quantity)"
proof -
  from assms obtain s1 where h: "hset s (cart_key user_id) product_id (py_str quantity) = Inr s1"
    and e: "s' = snd (expire s1 (cart_key user_id) (7 * 24 * 3600))"
    by (auto simp: add_to_cart_def split: sum.splits)
  from hset_result [OF h] have "entries s1 (cart_key user_id)
      = Some (RHash ((hash_at s (cart_key user_id))(product_id \<mapsto> py_str quantity)))" by blast
  then show ?thesis by (simp add: e expire_def hash_at_def)
qed

lemma big_cart_dom:
  "dom (hash_at (big_cart n) (cart_key ''U12345'')) = (\<lambda>i. replicate i CHR ''P'') ` {0..<n}"
  by (auto simp: big_cart_def hash_at_def dom_map_of_conv_image_fst image_iff)

lemma big_cart_card: "card (dom (hash_at (big_cart n) (cart_key ''U12345''))) = n"
proof -
  have "inj_on (\<lambda>i. replicate i CHR ''P'') {0..<n}"
    by (rule inj_onI) (metis length_replicate)
  then show ?thesis by (simp add: big_cart_dom card_image)
qed

lemma big_cart_add:
  "\<exists>s'. add_to_cart (big_cart (Suc cap)) ''U12345'' [] 1 = Inr s'"
  by (simp add: add_to_cart_def hset_def big_cart_def)

text \<open>
  C9, as stated: every per-user or global collection of \<^verbatim>\<open>EcommerceRedis\<close> is trimmed to a
  fixed capacity right after each insertion. It fails for the cart, a per-user collection:
  \<^const>\<open>add_to_cart\<close> sets one field of the cart record and an expiry and trims nothing,
  so no capacity bounds the number of entries a cart holds after an insertion.
\<close>

theorem cart_not_trimmed_counterexample:
  "\<not> (\<exists>cap. \<forall>s user_id product_id quantity s'.
         add_to_cart s user_id product_id quantity = Inr s' \<longrightarrow>
         card (dom (hash_at s' (cart_key user_id))) \<le> cap)"
proof
  assume "\<exists>cap. \<forall>s user_id product_id quantity s'.
         add_to_cart s user_id product_id quantity = Inr s' \<longrightarrow>
         card (dom (hash_at s' (cart_key user_id))) \<le> cap"
  then obtain cap where b: "\<And>s user_id product_id quantity s'.
         add_to_cart s user_id product_id quantity = Inr s' \<Longrightarrow>
         card (dom (hash_at s' (cart_key user_id))) \<le> cap" by blast
  obtain s' where a: "add_to_cart (big_cart (Suc cap)) ''U12345'' [] 1 = Inr s'"
    using big_cart_add by blast
  have "[] \<in> dom (hash_at (big_cart (Suc cap)) (cart_key ''U12345''))"
    by (simp add: big_cart_dom image_iff)
  then have "dom (hash_at s' (cart_key ''U12345'')) = dom (hash_at (big_cart (Suc cap)) (cart_key ''U12345''))"
    by (auto simp: add_to_cart_keeps [OF a])
  then have "card (dom (hash_at s' (cart_key ''U12345''))) = Suc cap"
    by (simp add: big_cart_card)
  with b [OF a] show False by simp
qed

lemma list_keys_distinct [simp]:
  "views_key u \<noteq> notifications_key u'" "notifications_key u' \<noteq> views_key u"
  "views_key u \<noteq> ''analytics:events''" "''analytics:events'' \<noteq> views_key u"
  "notifications_key u \<noteq> ''analytics:events''" "''analytics:events'' \<noteq> notifications_key u"
  by (simp_all add: views_key_def notifications_key_def)

lemma llen_frame: "entries s' k = entries s k \<Longrightarrow> llen s' k = llen s k"
  by (simp add: llen_def)

lemma lists_bounded_step:
  assumes "lists_bounded s"
    and "\<forall>k. k \<noteq> key \<longrightarrow> entries s' k = entries s k"
    and "\<forall>u. key = views_key u \<longrightarrow> llen s' key \<le> 50"
    and "\<forall>u. key = notifications_key u \<longrightarrow> llen s' key \<le> 100"
    and "key = ''analytics:events'' \<longrightarrow> llen s' key \<le> 10000"
  shows "lists_bounded s'"
proof -
  have v: "llen s' (views_key u) \<le> 50" for u
  proof (cases "views_key u = key")
    case True
    from assms(3) [rule_format, of u] True show ?thesis by simp
  next
    case False
    with assms(2) have "entries s' (views_key u) = entries s (views_key u)" by simp
    then have "llen s' (views_key u) = llen s (views_key u)" by (rule llen_frame)
    with assms(1) show ?thesis by (simp add: lists_bounded_def)
  qed
  have n: "llen s' (notifications_key u) \<le> 100" for u
  proof (cases "notifications_key u = key")
    case True
    from assms(4) [rule_format, of u] True show ?thesis by simp
  next
    case False
    with assms(2) have "entries s' (notifications_key u) = entries s (notifications_key u)"
      by simp
    then have "llen s' (notifications_key u) = llen s (notifications_key u)"
      by (rule llen_frame)
    with assms(1) show ?thesis by (simp add: lists_bounded_def)
  qed
  have a: "llen s' ''analytics:events'' \<le> 10000"
  proof (cases "''analytics:events'' = key")
    case True
    from assms(5) True show ?thesis by simp
  next
    case False
    with assms(2) have "entries s' ''analytics:events'' = entries s ''analytics:events''"
      by simp
    then have "llen s' ''analytics:events'' = llen s ''analytics:events''"
      by (rule llen_frame)
    with assms(1) show ?thesis by (simp add: lists_bounded_def)
  qed
  from v n a show ?thesis by (simp add: lists_bounded_def)
qed

lemma holds_list_or_nothing_push:
  assumes "entries s key = None \<or> (\<exists>xs. entries s key = Some (RList xs))" and "0 \<le> stop"
  shows "\<exists>s1 s2. lpush s key v = Inr s1 \<and> ltrim s1 key 0 stop = Inr s2"
proof -
  from lpush_succeeds [OF assms(1)] obtain s1 where p: "lpush s key v = Inr s1" by blast
  from push_trim [OF p assms(2)] p show ?thesis by blast
qed

lemma list_methods_return:
  "(entries s (views_key user_id) = None \<or> (\<exists>xs. entries s (views_key user_id) = Some (RList xs))
      \<longrightarrow> (\<exists>r. track_product_view s user_id product_id = Inr r))
   \<and> (entries s (notifications_key user_id) = None
        \<or> (\<exists>xs. entries s (notifications_key user_id) = Some (RList xs))
      \<longrightarrow> (\<exists>r. add_notification dumps s user_id notification_type message = Inr r))
   \<and> (entries s ''analytics:events'' = None \<or> (\<exists>xs. entries s ''analytics:events'' = Some (RList xs))
      \<longrightarrow> (\<exists>r. track_event dumps_event s event_type event_user event_product = Inr r))"
proof -
  have a: "entries s (views_key user_id) = None \<or> (\<exists>xs. entries s (views_key user_id) = Some (RList xs))
      \<longrightarrow> (\<exists>r. track_product_view s user_id product_id = Inr r)"
  proof
    assume h: "entries s (views_key user_id) = None \<or> (\<exists>xs. entries s (views_key user_id) = Some (RList xs))"
    from holds_list_or_nothing_push [OF h, of 49 product_id]
    show "\<exists>r. track_product_view s user_id product_id = Inr r"
      by (auto simp: track_product_view_def)
  qed
  have b: "entries s (notifications_key user_id) = None
        \<or> (\<exists>xs. entries s (notifications_key user_id) = Some (RList xs))
      \<longrightarrow> (\<exists>r. add_notification dumps s user_id notification_type message = Inr r)"
  proof
    assume h: "entries s (notifications_key user_id) = None
        \<or> (\<exists>xs. entries s (notifications_key user_id) = Some (RList xs))"
    from holds_list_or_nothing_push [OF h, of 99 "dumps notification_type message"]
    show "\<exists>r. add_notification dumps s user_id notification_type message = Inr r"
      by (auto simp: add_notification_def)
  qed
  have c: "entries s ''analytics:events'' = None \<or> (\<exists>xs. entries s ''analytics:events'' = Some (RList xs))
      \<longrightarrow> (\<exists>r. track_event dumps_event s event_type event_user event_product = Inr r)"
  proof
    assume h: "entries s ''analytics:events'' = None \<or> (\<exists>xs. entries s ''analytics:events'' = Some (RList xs))"
    from holds_list_or_nothing_push [OF h, of 9999 "dumps_event event_type event_user event_product"]
    show "\<exists>r. track_event dumps_event s event_type event_user event_product = Inr r"
      by (auto simp: track_event_def)
  qed
  from a b c show ?thesis by blast
qed

text \<open>
  C9, amended: each of the three lists of \<^verbatim>\<open>EcommerceRedis\<close> (the views of a user, the
  notifications of a user, the analytics events) is trimmed right after each insertion.
  A call that returns leaves the new element at the head of at most the first 50, 100 or
  10000 elements, so the list holds at most 50, 100 or 10000 entries whatever it held
  before; the three bounds, once they hold for every user, hold after any such call, and
  they hold on the empty store. Each call returns when its key is absent or holds a list.
  The cart is not trimmed: \<^const>\<open>add_to_cart\<close> keeps every earlier entry.
\<close>

theorem list_collections_trimmed:
  "(track_product_view s user_id product_id = Inr s1 \<longrightarrow>
      list_at s1 (views_key user_id) = take 50 (product_id # list_at s (views_key user_id))
      \<and> llen s1 (views_key user_id) \<le> 50
      \<and> (lists_bounded s \<longrightarrow> lists_bounded s1))
   \<and> (add_notification dumps s user_id notification_type message = Inr s2 \<longrightarrow>
      list_at s2 (notifications_key user_id)
        = take 100 (dumps notification_type message # list_at s (notifications_key user_id))
      \<and> llen s2 (notifications_key user_id) \<le> 100
      \<and> (lists_bounded s \<longrightarrow> lists_bounded s2))
   \<and> (track_event dumps_event s event_type event_user event_product = Inr s3 \<longrightarrow>
      list_at s3 ''analytics:events''
        = take 10000 (dumps_event event_type event_user event_product # list_at s ''analytics:events'')
      \<and> llen s3 ''analytics:events'' \<le> 10000
      \<and> (lists_bounded s \<longrightarrow> lists_bounded s3))
   \<and> (add_to_cart s user_id product_id quantity = Inr s4 \<longrightarrow>
      hash_at s4 (cart_key user_id)
        = (hash_at s (cart_key user_id))(product_id \<mapsto> py_str quantity))
   \<and> lists_bounded empty_store
   \<and> (entries s (views_key user_id) = None \<or> (\<exists>xs. entries s (views_key user_id) = Some (RList xs))
      \<longrightarrow> (\<exists>r. track_product_view s user_id product_id = Inr r))
   \<and> (entries s (notifications_key user_id) = None
        \<or> (\<exists>xs. entries s (notifications_key user_id) = Some (RList xs))
      \<longrightarrow> (\<exists>r. add_notification dumps s user_id notification_type message = Inr r))
   \<and> (entries s ''analytics:events'' = None \<or> (\<exists>xs. entries s ''analytics:events'' = Some (RList xs))
      \<longrightarrow> (\<exists>r. track_event dumps_event s event_type event_user event_product = Inr r))"
proof -
  note r = list_methods_return [of s user_id product_id dumps notification_type message
      dumps_event event_type event_user event_product]
  have v: "track_product_view s user_id product_id = Inr s1 \<longrightarrow>
      list_at s1 (views_key user_id) = take 50 (product_id # list_at s (views_key user_id))
      \<and> llen s1 (views_key user_id) \<le> 50
      \<and> (lists_bounded s \<longrightarrow> lists_bounded s1)"
  proof
    assume a: "track_product_view s user_id product_id = Inr s1"
    note p = track_product_view_post [OF a]
    have "lists_bounded s \<longrightarrow> lists_bounded s1"
    proof
      assume "lists_bounded s"
      then show "lists_bounded s1"
        by (rule lists_bounded_step [where key = "views_key user_id"]) (use p in auto)
    qed
    with p show "list_at s1 (views_key user_id) = take 50 (product_id # list_at s (views_key user_id))
      \<and> llen s1 (views_key user_id) \<le> 50
      \<and> (lists_bounded s \<longrightarrow> lists_bounded s1)" by blast
  qed
  have n: "add_notification dumps s user_id notification_type message = Inr s2 \<longrightarrow>
      list_at s2 (notifications_key user_id)
        = take 100 (dumps notification_type message # list_at s (notifications_key user_id))
      \<and> llen s2 (notifications_key user_id) \<le> 100
      \<and> (lists_bounded s \<longrightarrow> lists_bounded s2)"
  proof
    assume a: "add_notification dumps s user_id notification_type message = Inr s2"
    note p = add_notification_post [OF a]
    have "lists_bounded s \<longrightarrow> lists_bounded s2"
    proof
      assume "lists_bounded s"
      then show "lists_bounded s2"
        by (rule lists_bounded_step [where key = "notifications_key user_id"]) (use p in auto)
    qed
    with p show "list_at s2 (notifications_key user_id)
        = take 100 (dumps notification_type message # list_at s (notifications_key user_id))
      \<and> llen s2 (notifications_key user_id) \<le> 100
      \<and> (lists_bounded s \<longrightarrow> lists_bounded s2)" by blast
  qed
  have e: "track_event dumps_event s event_type event_user event_product = Inr s3 \<longrightarrow>
      list_at s3 ''analytics:events''
        = take 10000 (dumps_event event_type event_user event_product # list_at s ''analytics:events'')
      \<and> llen s3 ''analytics:events'' \<le> 10000
      \<and> (lists_bounded s \<longrightarrow> lists_bounded s3)"
  proof
    assume a: "track_event dumps_event s event_type event_user event_product = Inr s3"
    note p = track_event_post [OF a]
    have "lists_bounded s \<longrightarrow> lists_bounded s3"
    proof
      assume "lists_bounded s"
      then show "lists_bounded s3"
        by (rule lists_bounded_step [where key = "''analytics:events''"]) (use p in auto)
    qed
    with p show "list_at s3 ''analytics:events''
        = take 10000 (dumps_event event_type event_user event_product # list_at s ''analytics:events'')
      \<and> llen s3 ''analytics:events'' \<le> 10000
      \<and> (lists_bounded s \<longrightarrow> lists_bounded s3)" by blast
  qed
  have c: "add_to_cart s user_id product_id quantity = Inr s4 \<longrightarrow>
      hash_at s4 (cart_key user_id)
        = (hash_at s (cart_key user_id))(product_id \<mapsto> py_str quantity)"
    using add_to_cart_keeps by blast
  have b: "lists_bounded empty_store"
    by (simp add: lists_bounded_def llen_def empty_store_def)
  from v n e c b r show ?thesis by blast
qed

lemma full_views_push:
  "\<exists>s1. track_product_view full_views ''U12345'' ''P001'' = Inr s1"
proof -
  obtain s0 where p: "lpush full_views (views_key ''U12345'') ''P001'' = Inr s0"
    by (simp add: lpush_def full_views_def views_key_def)
  from push_trim [OF p, of 49] p show ?thesis
    by (auto simp: track_product_view_def)
qed

theorem list_collections_trimmed_witness:
  "llen full_views (views_key ''U12345'') = 50
   \<and> (case track_product_view full_views ''U12345'' ''P001'' of
         Inl e \<Rightarrow> False
       | Inr s1 \<Rightarrow> llen s1 (views_key ''U12345'') = 50
                  \<and> list_at s1 (views_key ''U12345'') = ''P001'' # replicate 49 ''P000'')"
proof -
  have l: "llen full_views (views_key ''U12345'') = 50"
    by (simp add: llen_def full_views_def views_key_def)
  have o: "list_at full_views (views_key ''U12345'') = replicate 50 ''P000''"
    by (simp add: list_at_def full_views_def views_key_def)
  obtain s1 where r: "track_product_view full_views ''U12345'' ''P001'' = Inr s1"
    using full_views_push by blast
  from list_collections_trimmed [of full_views "''U12345''" "''P001''" s1] r
  have t: "list_at s1 (views_key ''U12345'') = take 50 (''P001'' # list_at full_views (views_key ''U12345''))"
    by blast
  have "take 50 (''P001'' # replicate 50 ''P000'') = ''P001'' # replicate 49 ''P000''"
    by (simp add: take_Cons')
  with t o have c: "list_at s1 (views_key ''U12345'') = ''P001'' # replicate 49 ''P000''" by simp
  then have "llen s1 (views_key ''U12345'') = 50"
    by (auto simp: list_at_def llen_def split: option.splits rvalue.splits)
  with l r c show ?thesis by simp
qed


section \<open>Properties of the rate limiter\<close>

lemma incr_result:
  "incr cv s key = Inr (current, s1) \<Longrightarrow>
     (\<exists>old. counter_value cv s key = Some old \<and> current = old + 1)
     \<and> entries s1 key = Some (RString (ll2string cv current))
     \<and> (\<forall>k. k \<noteq> key \<longrightarrow> entries s1 k = entries s k)
     \<and> expiry s1 = expiry s"
  by (auto simp: incr_def counter_value_def split: option.splits rvalue.splits if_splits)

lemma incr_succeeds:
  "counter_value cv s key = Some old \<Longrightarrow> in_int64 (old + 1) \<Longrightarrow> \<exists>s1. incr cv s key = Inr (old + 1, s1)"
  by (auto simp: incr_def counter_value_def in_int64_def split: option.splits rvalue.splits)

lemma check_rate_limit_returned:
  assumes "check_rate_limit cv s ip_address max_requests window = (Inr (allowed, msg), s')"
  shows "\<exists>old s1.
           counter_value cv s (rate_limit_key ip_address) = Some old
         \<and> incr cv s (rate_limit_key ip_address) = Inr (old + 1, s1)
         \<and> entries s1 (rate_limit_key ip_address) = Some (RString (ll2string cv (old + 1)))
         \<and> (allowed \<longleftrightarrow> \<not> old + 1 > max_requests)
         \<and> s' = (if old + 1 = 1 then snd (expire s1 (rate_limit_key ip_address) window) else s1)
         \<and> (old + 1 \<noteq> 1 \<longrightarrow>
               expiry s' = expiry s
             \<and> entries s' (rate_limit_key ip_address) = Some (RString (ll2string cv (old + 1))))
         \<and> (old + 1 = 1 \<and> 0 < window \<longrightarrow>
               expiry s' (rate_limit_key ip_address) = Some window
             \<and> entries s' (rate_limit_key ip_address) = Some (RString (ll2string cv 1)))"
proof -
  from assms obtain current s1 where
    i: "incr cv s (rate_limit_key ip_address) = Inr (current, s1)"
    and a: "allowed \<longleftrightarrow> \<not> current > max_requests"
    and s': "s' = (if current = 1 then snd (expire s1 (rate_limit_key ip_address) window) else s1)"
    by (auto simp: check_rate_limit_def Let_def split: sum.splits prod.splits if_splits)
  from incr_result [OF i] obtain old where
    o: "counter_value cv s (rate_limit_key ip_address) = Some old" "current = old + 1"
    and e: "entries s1 (rate_limit_key ip_address) = Some (RString (ll2string cv current))"
    and x: "expiry s1 = expiry s" by blast
  show ?thesis
    using i a s' o e x by (auto simp: expire_def)
qed



lemma check_rate_limit_total:
  assumes "counter_value cv s (rate_limit_key ip_address) = Some old"
    and "in_int64 (old + 1)"
  shows "fst (check_rate_limit cv s ip_address max_requests window)
           = Inr (if old + 1 > max_requests
                  then (False, ''Rate limit exceeded: '' @ py_str (old + 1) @ ''/'' @ py_str max_requests)
                  else (True, ''OK: '' @ py_str (old + 1) @ ''/'' @ py_str max_requests))"
proof -
  from incr_succeeds [OF assms] obtain s1 where
    "incr cv s (rate_limit_key ip_address) = Inr (old + 1, s1)" by blast
  then show ?thesis by (simp add: check_rate_limit_def Let_def)
qed

text \<open>
  C10. Whenever \<^const>\<open>check_rate_limit\<close> returns, it has incremented the counter of the
  address by one, on allowed and on rejected calls alike: the value it compares is the
  old value plus one, and that is what \<^verbatim>\<open>INCR\<close> left in the store. The call is rejected
  exactly when that value is greater than \<open>max_requests\<close>. \<^verbatim>\<open>EXPIRE\<close> runs only when the
  value is 1; at any other value the times to live of the store are as before, and at 1
  the counter gets the window as its time to live. It returns whenever the counter holds
  an integer that can be incremented (an absent key counts as 0).
\<close>

theorem check_rate_limit_counts:
  "(check_rate_limit cv s ip_address max_requests window = (Inr (allowed, msg), s') \<longrightarrow>
      (\<exists>old s1.
           counter_value cv s (rate_limit_key ip_address) = Some old
         \<and> incr cv s (rate_limit_key ip_address) = Inr (old + 1, s1)
         \<and> entries s1 (rate_limit_key ip_address) = Some (RString (ll2string cv (old + 1)))
         \<and> (allowed \<longleftrightarrow> \<not> old + 1 > max_requests)
         \<and> s' = (if old + 1 = 1 then snd (expire s1 (rate_limit_key ip_address) window) else s1)
         \<and> (old + 1 \<noteq> 1 \<longrightarrow>
               expiry s' = expiry s
             \<and> entries s' (rate_limit_key ip_address) = Some (RString (ll2string cv (old + 1))))
         \<and> (old + 1 = 1 \<and> 0 < window \<longrightarrow>
               expiry s' (rate_limit_key ip_address) = Some window
             \<and> entries s' (rate_limit_key ip_address) = Some (RString (ll2string cv 1)))))
   \<and> (counter_value cv s (rate_limit_key ip_address) = Some old0 \<and> in_int64 (old0 + 1) \<longrightarrow>
        fst (check_rate_limit cv s ip_address max_requests window)
          = Inr (if old0 + 1 > max_requests
                 then (False, ''Rate limit exceeded: '' @ py_str (old0 + 1) @ ''/'' @ py_str max_requests)
                 else (True, ''OK: '' @ py_str (old0 + 1) @ ''/'' @ py_str max_requests)))"
  using check_rate_limit_returned [of cv s ip_address max_requests window allowed msg s']
    check_rate_limit_total [of cv s ip_address old0 max_requests window]
  by blast

lemma busy_eval:
  "fst (check_rate_limit dec_conv busy_store ''192.168.1.100'' 100 60)
     = Inr (False, ''Rate limit exceeded: 101/100'')"
  by code_simp

lemma fresh_eval:
  "fst (check_rate_limit dec_conv empty_store ''192.168.1.100'' 100 60)
     = Inr (True, ''OK: 1/100'')"
  by code_simp

theorem check_rate_limit_counts_witness:
  "counter_value dec_conv busy_store (rate_limit_key ''192.168.1.100'') = Some 100
   \<and> fst (check_rate_limit dec_conv busy_store ''192.168.1.100'' 100 60)
       = Inr (False, ''Rate limit exceeded: 101/100'')
   \<and> entries (snd (check_rate_limit dec_conv busy_store ''192.168.1.100'' 100 60))
        (rate_limit_key ''192.168.1.100'') = Some (RString ''101'')
   \<and> expiry (snd (check_rate_limit dec_conv busy_store ''192.168.1.100'' 100 60))
        (rate_limit_key ''192.168.1.100'') = Some 42
   \<and> fst (check_rate_limit dec_conv empty_store ''192.168.1.100'' 100 60)
       = Inr (True, ''OK: 1/100'')
   \<and> expiry (snd (check_rate_limit dec_conv empty_store ''192.168.1.100'' 100 60))
        (rate_limit_key ''192.168.1.100'') = Some 60"
proof -
  have cb: "counter_value dec_conv busy_store (rate_limit_key ''192.168.1.100'') = Some 100"
    by (simp add: counter_value_def busy_store_def rate_limit_key_def dec_defs in_int64_def)
  have ce: "counter_value dec_conv empty_store (rate_limit_key ''192.168.1.100'') = Some 0"
    by (simp add: counter_value_def empty_store_def)
  have xb: "expiry busy_store (rate_limit_key ''192.168.1.100'') = Some 42"
    by (simp add: busy_store_def rate_limit_key_def)
  have rb: "check_rate_limit dec_conv busy_store ''192.168.1.100'' 100 60
      = (Inr (False, ''Rate limit exceeded: 101/100''),
         snd (check_rate_limit dec_conv busy_store ''192.168.1.100'' 100 60))"
    using busy_eval by (metis prod.collapse)
  have re: "check_rate_limit dec_conv empty_store ''192.168.1.100'' 100 60
      = (Inr (True, ''OK: 1/100''),
         snd (check_rate_limit dec_conv empty_store ''192.168.1.100'' 100 60))"
    using fresh_eval by (metis prod.collapse)
  have s101: "ll2string dec_conv (100 + 1) = ''101''" by code_simp
  from check_rate_limit_counts [of dec_conv busy_store "''192.168.1.100''" 100 60 False
      "''Rate limit exceeded: 101/100''"
      "snd (check_rate_limit dec_conv busy_store ''192.168.1.100'' 100 60)"] rb cb xb s101
  have b: "entries (snd (check_rate_limit dec_conv busy_store ''192.168.1.100'' 100 60))
        (rate_limit_key ''192.168.1.100'') = Some (RString ''101'')
     \<and> expiry (snd (check_rate_limit dec_conv busy_store ''192.168.1.100'' 100 60))
        (rate_limit_key ''192.168.1.100'') = Some 42"
    by auto
  from check_rate_limit_counts [of dec_conv empty_store "''192.168.1.100''" 100 60 True
      "''OK: 1/100''"
      "snd (check_rate_limit dec_conv empty_store ''192.168.1.100'' 100 60)"] re ce
  have e: "expiry (snd (check_rate_limit dec_conv empty_store ''192.168.1.100'' 100 60))
        (rate_limit_key ''192.168.1.100'') = Some 60"
    by auto
  from cb b e busy_eval fresh_eval show ?thesis by simp
qed

end
